theory Spec2Isabelle
  imports Main
begin

section \<open>Decoded JSON values\<close>

text \<open>
  The checker of \<^verbatim>\<open>src/checkers/event_file_checker.py\<close> walks a value as
  \<^verbatim>\<open>json.load\<close> returns it: \<^verbatim>\<open>None\<close>, a bool, an int, a float, a str, a list
  or a dict with string keys. A dict keeps its insertion order, which is the order
  the checker iterates in, so it is an association list; \<^verbatim>\<open>key in j\<close> and
  \<^verbatim>\<open>j[key]\<close> are \<open>map_of\<close>. The checker only ever asks a float for its type,
  never for its value, which is held as a mantissa and an exponent.
\<close>

datatype json =
    JNull
  | JBool bool
  | JInt int
  | JFloat int int
  | JStr string
  | JList "json list"
  | JDict "(string \<times> json) list"

datatype pytype = NoneType | TBool | TInt | TFloat | TStr | TList | TDict

fun type_of :: "json \<Rightarrow> pytype" where
  "type_of JNull = NoneType"
| "type_of (JBool b) = TBool"
| "type_of (JInt i) = TInt"
| "type_of (JFloat m e) = TFloat"
| "type_of (JStr s) = TStr"
| "type_of (JList xs) = TList"
| "type_of (JDict kvs) = TDict"

text \<open>\<^verbatim>\<open>typ.__name__\<close>\<close>

fun type_name :: "pytype \<Rightarrow> string" where
  "type_name NoneType = ''NoneType''"
| "type_name TBool = ''bool''"
| "type_name TInt = ''int''"
| "type_name TFloat = ''float''"
| "type_name TStr = ''str''"
| "type_name TList = ''list''"
| "type_name TDict = ''dict''"

text \<open>\<^verbatim>\<open>isinstance(j, typ)\<close>: \<^verbatim>\<open>bool\<close> is a subclass of \<^verbatim>\<open>int\<close>.\<close>

definition isinstance :: "json \<Rightarrow> pytype \<Rightarrow> bool" where
  "isinstance j typ = (type_of j = typ \<or> (typ = TInt \<and> type_of j = TBool))"

section \<open>Exceptions and the interpreter\<close>

text \<open>
  \<^verbatim>\<open>PhoenixFormatError\<close> carries its message. The other constructors are the
  built-in exceptions that the operations used by the checker can raise.
\<close>

datatype exn = PhoenixFormatError string | TypeError | KeyError | IndexError

type_synonym result = "exn + unit"

text \<open>
  Two behaviours of the interpreter are used by the source and defined outside it:
  \<^item> the order in which a set display of two elements is iterated when it is
    unpacked (\<open>set_display_order\<close>: the elements come in the order they are written);
  \<^item> \<^verbatim>\<open>str\<close> of a decoded value that is not a string, for \<^verbatim>\<open>'%s' % j\<close>.
\<close>

record runtime =
  set_display_order :: bool
  py_str :: "json \<Rightarrow> string"

text \<open>\<^verbatim>\<open>'%s' % j\<close>\<close>

definition fmt_s :: "runtime \<Rightarrow> json \<Rightarrow> string" where
  "fmt_s rt j = (case j of JStr s \<Rightarrow> s | _ \<Rightarrow> py_str rt j)"

text \<open>\<^verbatim>\<open>'%d' % n\<close> for a count \<open>n\<close>\<close>

definition digit :: "nat \<Rightarrow> char" where
  "digit n = ''0123456789'' ! n"

fun fmt_d :: "nat \<Rightarrow> string" where
  "fmt_d n = (if n < 10 then [digit n] else fmt_d (n div 10) @ [digit (n mod 10)])"

declare fmt_d.simps [simp del]

abbreviation (input) sq :: string where
  "sq \<equiv> [CHR 0x27]"

abbreviation (input) dq :: string where
  "dq \<equiv> [CHR 0x22]"

text \<open>\<^verbatim>\<open>len(j)\<close>\<close>

fun py_len :: "json \<Rightarrow> exn + nat" where
  "py_len (JList xs) = Inr (length xs)"
| "py_len (JDict kvs) = Inr (length kvs)"
| "py_len (JStr s) = Inr (length s)"
| "py_len j = Inl TypeError"

text \<open>\<^verbatim>\<open>j[key]\<close> for a string key\<close>

fun py_getitem :: "json \<Rightarrow> string \<Rightarrow> exn + json" where
  "py_getitem (JDict kvs) key = (case map_of kvs key of Some v \<Rightarrow> Inr v | None \<Rightarrow> Inl KeyError)"
| "py_getitem j key = Inl TypeError"

text \<open>
  A \<^verbatim>\<open>for\<close> loop whose body may raise, with the counter the source keeps beside
  it: the first exception ends the loop.
\<close>

fun for_loop :: "(nat \<Rightarrow> 'a \<Rightarrow> result) \<Rightarrow> nat \<Rightarrow> 'a list \<Rightarrow> result" where
  "for_loop body n [] = Inr ()"
| "for_loop body n (x # xs) =
    (case body n x of Inl e \<Rightarrow> Inl e | Inr u \<Rightarrow> for_loop body (Suc n) xs)"

text \<open>Statement sequencing: the second statement runs when the first returned.\<close>

definition seq :: "result \<Rightarrow> result \<Rightarrow> result" where
  "seq r k = (case r of Inl e \<Rightarrow> Inl e | Inr u \<Rightarrow> k)"

section \<open>Schema tables and the generic checker\<close>

text \<open>
  A schema maps a key to a value that \<^verbatim>\<open>genericCheck\<close> unpacks into
  \<^verbatim>\<open>isOpt, checker\<close>. The components are Python values: the source tests the first
  for truth and calls the second. A schema entry is held as the sequence that
  unpacking yields: for a tuple \<^verbatim>\<open>(a, b)\<close> that is \<open>a\<close>, \<open>b\<close>; for a set display
  \<^verbatim>\<open>{a, b}\<close> it is the interpreter's iteration order. The keys of every schema
  of the source are distinct, so the loop \<^verbatim>\<open>for key in d\<close> with its lookup
  \<^verbatim>\<open>d[key]\<close> is the loop over the entries.
\<close>

type_synonym checker = "json \<Rightarrow> string \<Rightarrow> result"

datatype pyval = VBool bool | VFun checker

type_synonym schema = "(string \<times> pyval \<times> pyval) list"

definition tuple2 :: "pyval \<Rightarrow> pyval \<Rightarrow> pyval \<times> pyval" where
  "tuple2 a b = (a, b)"

definition set2 :: "runtime \<Rightarrow> pyval \<Rightarrow> pyval \<Rightarrow> pyval \<times> pyval" where
  "set2 rt a b = (if set_display_order rt then (a, b) else (b, a))"

fun truthy :: "pyval \<Rightarrow> bool" where
  "truthy (VBool b) = b"
| "truthy (VFun f) = True"

fun call :: "pyval \<Rightarrow> json \<Rightarrow> string \<Rightarrow> result" where
  "call (VFun f) j name = f j name"
| "call (VBool b) j name = Inl TypeError"

definition genericCheck_entry :: "(string \<times> json) list \<Rightarrow> string \<Rightarrow> string \<times> pyval \<times> pyval \<Rightarrow> result" where
  "genericCheck_entry kvs objName entry =
    (case entry of (key, isOpt, checker) \<Rightarrow>
      if \<not> truthy isOpt \<and> map_of kvs key = None
      then Inl (PhoenixFormatError (''Expected a '' @ sq @ key @ sq @ '' attribute in '' @ objName))
      else (case map_of kvs key of
              Some v \<Rightarrow> call checker v (objName @ '', attribute '' @ sq @ key @ sq)
            | None \<Rightarrow> Inr ()))"

definition genericCheck :: "json \<Rightarrow> schema \<Rightarrow> string \<Rightarrow> string \<Rightarrow> result" where
  "genericCheck j d objName objType =
    (case j of
       JDict kvs \<Rightarrow> for_loop (\<lambda>n. genericCheck_entry kvs objName) 0 d
     | _ \<Rightarrow> Inl (PhoenixFormatError
          (''Expected '' @ objType @ '' to be dictionaries. Not the case for '' @ objName)))"

section \<open>Primitive checkers\<close>

definition genericTypeCheck :: "json \<Rightarrow> string \<Rightarrow> pytype \<Rightarrow> result" where
  "genericTypeCheck j objName typ =
    (if \<not> isinstance j typ
     then Inl (PhoenixFormatError
       (''Expected the '' @ objName @ '' to be of type '' @ dq @ type_name typ @ dq
          @ '', found '' @ type_name (type_of j)))
     else Inr ())"

definition noCheck :: checker where
  "noCheck j name = Inr ()"

definition floatCheck :: checker where
  "floatCheck j name =
    (if \<not> isinstance j TFloat \<and> \<not> isinstance j TInt
     then Inl (PhoenixFormatError
       (''Expected the '' @ name @ '' to be of type float or int, found '' @ type_name (type_of j)))
     else Inr ())"

definition colorAttributeCheck :: checker where
  "colorAttributeCheck j name = genericTypeCheck j name TStr"

definition floatListCheck :: "json \<Rightarrow> string \<Rightarrow> int \<Rightarrow> result" where
  "floatListCheck j name nitems =
    seq (genericTypeCheck j name TList)
      (case j of
         JList items \<Rightarrow>
           if nitems \<ge> 0 \<and> int (length items) \<noteq> nitems
           then Inl (PhoenixFormatError
             (''Expected '' @ fmt_d (nat nitems) @ '' entries in '' @ name @ '', got ''
                @ fmt_d (length items)))
           else for_loop (\<lambda>n item. floatCheck item (name @ '', item '' @ fmt_d n)) 0 items
       | _ \<Rightarrow> Inl TypeError)"

definition hitTypeCheck :: "runtime \<Rightarrow> checker" where
  "hitTypeCheck rt j name =
    (if j \<notin> set [JStr ''Point'', JStr ''Box'', JStr ''Line'']
     then Inl (PhoenixFormatError
       (''Invalid hit type '' @ dq @ fmt_s rt j @ dq @ '' in '' @ name
          @ ''. Valid values are Point, Line and Box''))
     else Inr ())"

definition posAttributeCheck :: checker where
  "posAttributeCheck positions name =
    seq (genericTypeCheck positions name TList)
      (case positions of
         JList ps \<Rightarrow> for_loop (\<lambda>n pos. floatListCheck pos (name @ '', item '' @ fmt_d n) 3) 0 ps
       | _ \<Rightarrow> Inl TypeError)"

section \<open>Checkers of the data types\<close>

definition tracks_entries :: schema where
  "tracks_entries =
    [(''pos'', tuple2 (VBool False) (VFun posAttributeCheck)),
     (''color'', tuple2 (VBool True) (VFun colorAttributeCheck)),
     (''dparams'', tuple2 (VBool True) (VFun (\<lambda>j n. floatListCheck j n 5))),
     (''d0'', tuple2 (VBool True) (VFun floatCheck)),
     (''z0'', tuple2 (VBool True) (VFun floatCheck)),
     (''phi'', tuple2 (VBool True) (VFun floatCheck)),
     (''eta'', tuple2 (VBool True) (VFun floatCheck))]"

definition tracksCheck :: "string \<Rightarrow> json \<Rightarrow> result" where
  "tracksCheck data_name data =
    seq (genericTypeCheck data data_name TList)
      (case data of
         JList items \<Rightarrow>
           for_loop (\<lambda>n track.
             genericCheck track tracks_entries (data_name @ '', track '' @ fmt_d n) ''Track'') 1 items
       | _ \<Rightarrow> Inl TypeError)"

definition jets_entries :: schema where
  "jets_entries =
    [(''eta'', tuple2 (VBool False) (VFun floatCheck)),
     (''phi'', tuple2 (VBool False) (VFun floatCheck)),
     (''theta'', tuple2 (VBool True) (VFun floatCheck)),
     (''energy'', tuple2 (VBool True) (VFun floatCheck)),
     (''et'', tuple2 (VBool True) (VFun floatCheck)),
     (''coneR'', tuple2 (VBool True) (VFun floatCheck)),
     (''color'', tuple2 (VBool True) (VFun colorAttributeCheck))]"

definition jetsCheck :: "string \<Rightarrow> json \<Rightarrow> result" where
  "jetsCheck data_name data =
    seq (genericTypeCheck data data_name TList)
      (case data of
         JList items \<Rightarrow>
           for_loop (\<lambda>n jet.
             genericCheck jet jets_entries (data_name @ '', jet '' @ fmt_d n) ''Jet'') 1 items
       | _ \<Rightarrow> Inl TypeError)"

text \<open>The body of the loop over raw positions in \<^verbatim>\<open>hitsCheck\<close>.\<close>

definition hitsCheck_position :: "string \<Rightarrow> nat \<Rightarrow> json \<Rightarrow> result" where
  "hitsCheck_position data_name n position =
    (let pos_name = data_name @ '', position '' @ fmt_d n in
     seq (genericTypeCheck position data_name TList)
       (case position of
          JList cs \<Rightarrow>
            if length cs \<noteq> 3
            then Inl (PhoenixFormatError
              (''Expected Hits to be triplets of values. Not the case for '' @ pos_name))
            else seq (floatCheck (cs ! 0) (pos_name @ '', coordinate x''))
                (seq (floatCheck (cs ! 1) (pos_name @ '', coordinate y''))
                     (floatCheck (cs ! 2) (pos_name @ '', coordinate z'')))
        | _ \<Rightarrow> Inl TypeError))"

definition hit_entries :: "runtime \<Rightarrow> schema" where
  "hit_entries rt =
    [(''type'', tuple2 (VBool True) (VFun (hitTypeCheck rt))),
     (''pos'', tuple2 (VBool False) (VFun (\<lambda>j n. floatListCheck j n (- 1)))),
     (''color'', tuple2 (VBool True) (VFun colorAttributeCheck))]"

text \<open>The body of the loop over \<^verbatim>\<open>Hit\<close> objects in \<^verbatim>\<open>hitsCheck\<close>.\<close>

definition hitsCheck_hit :: "runtime \<Rightarrow> string \<Rightarrow> nat \<Rightarrow> json \<Rightarrow> result" where
  "hitsCheck_hit rt data_name n hit =
    seq (genericCheck hit (hit_entries rt) (data_name @ '', hit '' @ fmt_d n) ''Hit'')
      (case hit of
         JDict kvs \<Rightarrow>
          (let typ = (case map_of kvs ''type'' of Some t \<Rightarrow> t | None \<Rightarrow> JStr ''Point'') in
           case py_getitem hit ''pos'' of
             Inl e \<Rightarrow> Inl e
           | Inr p \<Rightarrow>
              (case py_len p of
                 Inl e \<Rightarrow> Inl e
               | Inr npos \<Rightarrow>
                  (let expNpos = (if typ = JStr ''Point'' then 3 else 6) in
                   if npos \<noteq> expNpos
                   then Inl (PhoenixFormatError
                     (''Expected '' @ fmt_d expNpos @ '' coordinates per Hit in '' @ data_name
                        @ ''. Found '' @ fmt_d npos @ '' in hit '' @ fmt_d n))
                   else Inr ())))
       | _ \<Rightarrow> Inl TypeError)"

definition hitsCheck :: "runtime \<Rightarrow> string \<Rightarrow> json \<Rightarrow> result" where
  "hitsCheck rt data_name data =
    seq (genericTypeCheck data data_name TList)
      (case data of
         JList items \<Rightarrow>
           (case items of
              [] \<Rightarrow> Inr ()
            | first # rest \<Rightarrow>
                if isinstance first TList
                then for_loop (hitsCheck_position data_name) 0 items
                else for_loop (hitsCheck_hit rt data_name) 0 items)
       | _ \<Rightarrow> Inl TypeError)"

definition clusters_entries :: schema where
  "clusters_entries =
    [(''energy'', tuple2 (VBool False) (VFun floatCheck)),
     (''phi'', tuple2 (VBool False) (VFun floatCheck)),
     (''eta'', tuple2 (VBool False) (VFun floatCheck))]"

definition clustersCheck :: "string \<Rightarrow> json \<Rightarrow> result" where
  "clustersCheck data_name data =
    seq (genericTypeCheck data data_name TList)
      (case data of
         JList items \<Rightarrow>
           for_loop (\<lambda>n item.
             genericCheck item clusters_entries (data_name @ '', entry '' @ fmt_d n)
               ''CaloCluster/CaloCell'') 0 items
       | _ \<Rightarrow> Inl TypeError)"

definition planar_entries :: schema where
  "planar_entries =
    [(''plane'', tuple2 (VBool False) (VFun (\<lambda>j n. floatListCheck j n 4))),
     (''cells'', tuple2 (VBool False)
        (VFun (\<lambda>j name. genericTypeCheck j (name @ '', cells attribute'') TList)))]"

definition cell_entries :: schema where
  "cell_entries =
    [(''cellSize'', tuple2 (VBool False) (VFun floatCheck)),
     (''energy'', tuple2 (VBool False) (VFun floatCheck)),
     (''pos'', tuple2 (VBool False) (VFun (\<lambda>j n. floatListCheck j n 2))),
     (''color'', tuple2 (VBool True) (VFun colorAttributeCheck))]"

definition planarCaloCheck :: "string \<Rightarrow> json \<Rightarrow> result" where
  "planarCaloCheck data_name data =
    seq (genericTypeCheck data data_name TDict)
     (seq (genericCheck data planar_entries data_name ''PlanarCaloCells'')
       (case py_getitem data ''cells'' of
          Inl e \<Rightarrow> Inl e
        | Inr (JList cells) \<Rightarrow>
            for_loop (\<lambda>n cell.
              genericCheck cell cell_entries (data_name @ '', cell '' @ fmt_d n) ''CaloCell'') 0 cells
        | Inr other \<Rightarrow> Inl TypeError))"

definition vertices_entries :: schema where
  "vertices_entries =
    [(''x'', tuple2 (VBool False) (VFun floatCheck)),
     (''y'', tuple2 (VBool False) (VFun floatCheck)),
     (''z'', tuple2 (VBool False) (VFun floatCheck)),
     (''color'', tuple2 (VBool True) (VFun colorAttributeCheck))]"

definition verticesCheck :: "string \<Rightarrow> json \<Rightarrow> result" where
  "verticesCheck data_name data =
    seq (genericTypeCheck data data_name TList)
      (case data of
         JList items \<Rightarrow>
           for_loop (\<lambda>n item.
             genericCheck item vertices_entries (data_name @ '', vertex '' @ fmt_d n) ''Vertex'') 0 items
       | _ \<Rightarrow> Inl TypeError)"

definition missingE_entries :: schema where
  "missingE_entries =
    [(''etx'', tuple2 (VBool False) (VFun floatCheck)),
     (''ety'', tuple2 (VBool False) (VFun floatCheck)),
     (''color'', tuple2 (VBool True) (VFun colorAttributeCheck))]"

definition missingECheck :: "string \<Rightarrow> json \<Rightarrow> result" where
  "missingECheck data_name data =
    seq (genericTypeCheck data data_name TList)
      (case data of
         JList items \<Rightarrow>
           for_loop (\<lambda>n item.
             genericCheck item missingE_entries (data_name @ '', object '' @ fmt_d n)
               ''MissingEnergy'') 0 items
       | _ \<Rightarrow> Inl TypeError)"

definition compoundCheck :: "string \<Rightarrow> json \<Rightarrow> result" where
  "compoundCheck data_name data = Inr ()"

section \<open>The dispatch table and the drivers\<close>

definition KnownDataTypes :: "runtime \<Rightarrow> (string \<times> (string \<Rightarrow> json \<Rightarrow> result)) list" where
  "KnownDataTypes rt =
    [(''Tracks'', tracksCheck),
     (''Jets'', jetsCheck),
     (''Hits'', hitsCheck rt),
     (''CaloClusters'', clustersCheck),
     (''CaloCells'', clustersCheck),
     (''PlanarCaloCells'', planarCaloCheck),
     (''Vertices'', verticesCheck),
     (''MissingEnergy'', missingECheck),
     (''Muons'', compoundCheck),
     (''Photons'', compoundCheck),
     (''Electrons'', compoundCheck)]"

text \<open>
  \<^verbatim>\<open>eventDataCheck\<close> is called by \<^verbatim>\<open>eventCheck\<close> only, on a value that is a
  dict: \<open>data\<close> is the dict's items. The loop body looks the collection up again
  (\<^verbatim>\<open>data[collection_name]\<close>), as the source does.
\<close>

definition eventDataCheck :: "runtime \<Rightarrow> string \<Rightarrow> string \<Rightarrow> (string \<times> json) list \<Rightarrow> result" where
  "eventDataCheck rt event_name data_type data =
    (if data_type \<notin> set (map fst (KnownDataTypes rt))
     then Inl (PhoenixFormatError (''Unknown data type found : '' @ sq @ data_type @ sq))
     else for_loop (\<lambda>n collection_name.
            case map_of (KnownDataTypes rt) data_type of
              None \<Rightarrow> Inl KeyError
            | Some chk \<Rightarrow>
               (case map_of data collection_name of
                  None \<Rightarrow> Inl KeyError
                | Some v \<Rightarrow>
                    chk (''event '' @ sq @ event_name @ sq @ '', collection '' @ sq
                           @ collection_name @ sq) v))
            0 (map fst data))"

text \<open>
  The schema of an event is written with set displays, \<^verbatim>\<open>{False, noCheck}\<close>,
  where every other schema has tuples.
\<close>

definition event_entries :: "runtime \<Rightarrow> schema" where
  "event_entries rt =
    [(''event number'', set2 rt (VBool False) (VFun noCheck)),
     (''run number'', set2 rt (VBool False) (VFun noCheck))]"

text \<open>The body of the loop over the keys of an event in \<^verbatim>\<open>eventCheck\<close>.\<close>

definition eventCheck_data :: "runtime \<Rightarrow> string \<Rightarrow> (string \<times> json) list \<Rightarrow> string \<Rightarrow> result" where
  "eventCheck_data rt event_name kvs data =
    (case map_of kvs data of
       None \<Rightarrow> Inl KeyError
     | Some (JDict d) \<Rightarrow> eventDataCheck rt event_name data d
     | Some other \<Rightarrow> Inr ())"

definition eventCheck :: "runtime \<Rightarrow> string \<Rightarrow> json \<Rightarrow> result" where
  "eventCheck rt event_name event =
    seq (genericCheck event (event_entries rt) (''top level event '' @ event_name) ''Event'')
      (case event of
         JDict kvs \<Rightarrow> for_loop (\<lambda>n. eventCheck_data rt event_name kvs) 0 (map fst kvs)
       | _ \<Rightarrow> Inl TypeError)"

definition check :: "runtime \<Rightarrow> json \<Rightarrow> result" where
  "check rt topJson =
    (case topJson of
       JDict events \<Rightarrow>
         for_loop (\<lambda>n eventKey.
           case map_of events eventKey of
             None \<Rightarrow> Inl KeyError
           | Some event \<Rightarrow> eventCheck rt eventKey event) 0 (map fst events)
     | _ \<Rightarrow> Inl (PhoenixFormatError ''Expected a dictionary at top level''))"

section \<open>The properties, as the specification words them\<close>

text \<open>
  A numeric value is an integer or a floating-point value; a Python boolean is an
  integer. A raw coordinate triplet is a list of exactly three numeric values. A
  typed Hit object has a mandatory \<^verbatim>\<open>pos\<close>, a numeric list, and optional \<^verbatim>\<open>type\<close>
  and \<^verbatim>\<open>color\<close>; \<^verbatim>\<open>pos\<close> has length 3 for a Point (the default) and 6 for a Line
  or a Box.
\<close>

definition numeric :: "json \<Rightarrow> bool" where
  "numeric j = (type_of j = TInt \<or> type_of j = TFloat \<or> type_of j = TBool)"

definition raw_triplet :: "json \<Rightarrow> bool" where
  "raw_triplet p = (case p of JList cs \<Rightarrow> length cs = 3 \<and> list_all numeric cs | _ \<Rightarrow> False)"


text \<open>
  The Data Collections of an event: its keys whose value is an object, each with
  the items of that object, in the order of the event.
\<close>

fun collections_of :: "(string \<times> json) list \<Rightarrow> (string \<times> (string \<times> json) list) list" where
  "collections_of [] = []"
| "collections_of ((key, JDict d) # kvs) = (key, d) # collections_of kvs"
| "collections_of ((key, other) # kvs) = collections_of kvs"

text \<open>
  The \<^verbatim>\<open>pos\<close> of a Tracks item is well formed when the item is an object that
  has the key and its value is a list of raw coordinate triplets. An outcome cites
  the triplet-length mismatch when it is an error whose message starts
  \<^verbatim>\<open>Expected 3 entries in\<close>.
\<close>

definition track_pos_ok :: "json \<Rightarrow> bool" where
  "track_pos_ok item =
    (case item of
       JDict kvs \<Rightarrow>
         (case map_of kvs ''pos'' of Some (JList ps) \<Rightarrow> list_all raw_triplet ps | _ \<Rightarrow> False)
     | _ \<Rightarrow> False)"

definition cites_triplet_mismatch :: "result \<Rightarrow> bool" where
  "cites_triplet_mismatch r =
    (case r of
       Inl (PhoenixFormatError m) \<Rightarrow> take 22 m = ''Expected 3 entries in ''
     | _ \<Rightarrow> False)"

text \<open>
  A result is of the single error kind when it is a normal return or a
  \<^verbatim>\<open>PhoenixFormatError\<close>. A schema is a schema of checkers when the second
  component of each entry is a function whose results are of that kind.
\<close>

definition format_error_only :: "result \<Rightarrow> bool" where
  "format_error_only r =
    (case r of Inr u \<Rightarrow> True | Inl (PhoenixFormatError m) \<Rightarrow> True | Inl e \<Rightarrow> False)"

definition schema_of_checkers :: "schema \<Rightarrow> bool" where
  "schema_of_checkers d =
    list_all (\<lambda>(key, isOpt, checker).
      case checker of VFun f \<Rightarrow> (\<forall>v name. format_error_only (f v name)) | VBool b \<Rightarrow> False) d"

section \<open>The violations of a document, as the specification words them\<close>

text \<open>
  The specification describes each check by what it requires of a value. Here every
  requirement that a value fails yields one violation, the message of the error,
  and a check yields the list of all the violations in depth-first, left-to-right
  order of the document: a value of the wrong type yields its type violation and
  is not looked into, every other value yields its own violations followed by
  those of its parts. Nothing in these definitions stops at a violation, and none
  of them calls a checker of the source. The first violation of a list is the
  error that a fail-fast traversal reports; an empty list is a normal return.
\<close>

fun first_of :: "string list \<Rightarrow> result" where
  "first_of [] = Inr ()"
| "first_of (m # ms) = Inl (PhoenixFormatError m)"

fun items_violations :: "(nat \<Rightarrow> 'a \<Rightarrow> string list) \<Rightarrow> nat \<Rightarrow> 'a list \<Rightarrow> string list" where
  "items_violations viol n [] = []"
| "items_violations viol n (x # xs) = viol n x @ items_violations viol (Suc n) xs"

text \<open>The primitive checks: type, numeric, color, list of numeric values with an
  optional expected length, hit type, and list of coordinate triplets.\<close>

definition type_violations :: "json \<Rightarrow> string \<Rightarrow> pytype \<Rightarrow> string list" where
  "type_violations j name typ =
    (if isinstance j typ then []
     else [''Expected the '' @ name @ '' to be of type '' @ dq @ type_name typ @ dq
             @ '', found '' @ type_name (type_of j)])"

definition numeric_violations :: "json \<Rightarrow> string \<Rightarrow> string list" where
  "numeric_violations j name =
    (if numeric j then []
     else [''Expected the '' @ name @ '' to be of type float or int, found ''
             @ type_name (type_of j)])"

definition color_violations :: "json \<Rightarrow> string \<Rightarrow> string list" where
  "color_violations j name = type_violations j name TStr"

definition float_list_violations :: "nat option \<Rightarrow> json \<Rightarrow> string \<Rightarrow> string list" where
  "float_list_violations expectedLength j name =
    (case j of
       JList items \<Rightarrow>
         (case expectedLength of
            None \<Rightarrow> []
          | Some k \<Rightarrow>
              if length items = k then []
              else [''Expected '' @ fmt_d k @ '' entries in '' @ name @ '', got ''
                      @ fmt_d (length items)])
         @ items_violations (\<lambda>n item. numeric_violations item (name @ '', item '' @ fmt_d n)) 0 items
     | _ \<Rightarrow> type_violations j name TList)"

definition hit_type_violations :: "runtime \<Rightarrow> json \<Rightarrow> string \<Rightarrow> string list" where
  "hit_type_violations rt j name =
    (if j = JStr ''Point'' \<or> j = JStr ''Line'' \<or> j = JStr ''Box'' then []
     else [''Invalid hit type '' @ dq @ fmt_s rt j @ dq @ '' in '' @ name
             @ ''. Valid values are Point, Line and Box''])"

definition pos_violations :: "json \<Rightarrow> string \<Rightarrow> string list" where
  "pos_violations positions name =
    (case positions of
       JList ps \<Rightarrow>
         items_violations
           (\<lambda>n pos. float_list_violations (Some 3) pos (name @ '', item '' @ fmt_d n)) 0 ps
     | _ \<Rightarrow> type_violations positions name TList)"

text \<open>A field descriptor names a field, says whether it is optional, and gives the
  check of its value. The fields of an object are checked in the order of the
  schema table; a field that is absent violates the schema when it is mandatory.\<close>

type_synonym field = "string \<times> bool \<times> (json \<Rightarrow> string \<Rightarrow> string list)"

definition field_violations :: "(string \<times> json) list \<Rightarrow> string \<Rightarrow> field \<Rightarrow> string list" where
  "field_violations kvs objectName fld =
    (case fld of (key, optional, viol) \<Rightarrow>
      (case map_of kvs key of
         None \<Rightarrow>
           if optional then []
           else [''Expected a '' @ sq @ key @ sq @ '' attribute in '' @ objectName]
       | Some v \<Rightarrow> viol v (objectName @ '', attribute '' @ sq @ key @ sq)))"

definition object_violations :: "json \<Rightarrow> field list \<Rightarrow> string \<Rightarrow> string \<Rightarrow> string list" where
  "object_violations j fieldList objectName objectKind =
    (case j of
       JDict kvs \<Rightarrow> concat (map (field_violations kvs objectName) fieldList)
     | _ \<Rightarrow> [''Expected '' @ objectKind @ '' to be dictionaries. Not the case for '' @ objectName])"

text \<open>A list of items of one schema, each labelled with its index counted from the
  given origin.\<close>

definition item_list_violations ::
    "field list \<Rightarrow> string \<Rightarrow> string \<Rightarrow> nat \<Rightarrow> string \<Rightarrow> json \<Rightarrow> string list" where
  "item_list_violations fieldList objectKind itemWord origin collectionLabel listValue =
    (case listValue of
       JList items \<Rightarrow>
         items_violations
           (\<lambda>n item. object_violations item fieldList
              (collectionLabel @ '', '' @ itemWord @ '' '' @ fmt_d n) objectKind) origin items
     | _ \<Rightarrow> type_violations listValue collectionLabel TList)"

text \<open>The schema tables of section 4.3 of the specification.\<close>

definition tracks_fields :: "field list" where
  "tracks_fields =
    [(''pos'', False, pos_violations),
     (''color'', True, color_violations),
     (''dparams'', True, float_list_violations (Some 5)),
     (''d0'', True, numeric_violations),
     (''z0'', True, numeric_violations),
     (''phi'', True, numeric_violations),
     (''eta'', True, numeric_violations)]"

definition jets_fields :: "field list" where
  "jets_fields =
    [(''eta'', False, numeric_violations),
     (''phi'', False, numeric_violations),
     (''theta'', True, numeric_violations),
     (''energy'', True, numeric_violations),
     (''et'', True, numeric_violations),
     (''coneR'', True, numeric_violations),
     (''color'', True, color_violations)]"

definition hit_fields :: "runtime \<Rightarrow> field list" where
  "hit_fields rt =
    [(''type'', True, hit_type_violations rt),
     (''pos'', False, float_list_violations None),
     (''color'', True, color_violations)]"

definition clusters_fields :: "field list" where
  "clusters_fields =
    [(''energy'', False, numeric_violations),
     (''phi'', False, numeric_violations),
     (''eta'', False, numeric_violations)]"

definition planar_fields :: "field list" where
  "planar_fields =
    [(''plane'', False, float_list_violations (Some 4)),
     (''cells'', False, \<lambda>j name. type_violations j (name @ '', cells attribute'') TList)]"

definition cell_fields :: "field list" where
  "cell_fields =
    [(''cellSize'', False, numeric_violations),
     (''energy'', False, numeric_violations),
     (''pos'', False, float_list_violations (Some 2)),
     (''color'', True, color_violations)]"

definition vertices_fields :: "field list" where
  "vertices_fields =
    [(''x'', False, numeric_violations),
     (''y'', False, numeric_violations),
     (''z'', False, numeric_violations),
     (''color'', True, color_violations)]"

definition missingE_fields :: "field list" where
  "missingE_fields =
    [(''etx'', False, numeric_violations),
     (''ety'', False, numeric_violations),
     (''color'', True, color_violations)]"

definition event_fields :: "field list" where
  "event_fields =
    [(''event number'', False, \<lambda>j name. []),
     (''run number'', False, \<lambda>j name. [])]"

text \<open>Hits: a raw coordinate triplet; the number of coordinates of a typed Hit, 3 for
  a Point (the default) and 6 for a Line or a Box; a typed Hit; a Hits list, whose
  representation is that of its first element.\<close>

definition raw_hit_violations :: "string \<Rightarrow> nat \<Rightarrow> json \<Rightarrow> string list" where
  "raw_hit_violations collectionLabel n position =
    (case position of
       JList cs \<Rightarrow>
         (case cs of
            [x, y, z] \<Rightarrow>
              numeric_violations x (collectionLabel @ '', position '' @ fmt_d n @ '', coordinate x'')
              @ numeric_violations y (collectionLabel @ '', position '' @ fmt_d n @ '', coordinate y'')
              @ numeric_violations z (collectionLabel @ '', position '' @ fmt_d n @ '', coordinate z'')
          | _ \<Rightarrow> [''Expected Hits to be triplets of values. Not the case for ''
                   @ collectionLabel @ '', position '' @ fmt_d n])
     | _ \<Rightarrow> type_violations position collectionLabel TList)"

definition hit_count_violations :: "string \<Rightarrow> nat \<Rightarrow> (string \<times> json) list \<Rightarrow> string list" where
  "hit_count_violations collectionLabel n kvs =
    (case map_of kvs ''pos'' of
       Some (JList ps) \<Rightarrow>
         (let expected =
            (case map_of kvs ''type'' of
               None \<Rightarrow> Some 3
             | Some t \<Rightarrow>
                 if t = JStr ''Point'' then Some 3
                 else if t = JStr ''Line'' \<or> t = JStr ''Box'' then Some 6
                 else None)
          in case expected of
               None \<Rightarrow> []
             | Some k \<Rightarrow>
                 if length ps = k then []
                 else [''Expected '' @ fmt_d k @ '' coordinates per Hit in '' @ collectionLabel
                         @ ''. Found '' @ fmt_d (length ps) @ '' in hit '' @ fmt_d n])
     | _ \<Rightarrow> [])"

definition typed_hit_violations :: "runtime \<Rightarrow> string \<Rightarrow> nat \<Rightarrow> json \<Rightarrow> string list" where
  "typed_hit_violations rt collectionLabel n hit =
    object_violations hit (hit_fields rt) (collectionLabel @ '', hit '' @ fmt_d n) ''Hit''
    @ (case hit of JDict kvs \<Rightarrow> hit_count_violations collectionLabel n kvs | _ \<Rightarrow> [])"

definition hits_violations :: "runtime \<Rightarrow> string \<Rightarrow> json \<Rightarrow> string list" where
  "hits_violations rt collectionLabel listValue =
    (case listValue of
       JList items \<Rightarrow>
         (case items of
            [] \<Rightarrow> []
          | first # rest \<Rightarrow>
              if type_of first = TList
              then items_violations (raw_hit_violations collectionLabel) 0 items
              else items_violations (typed_hit_violations rt collectionLabel) 0 items)
     | _ \<Rightarrow> type_violations listValue collectionLabel TList)"

text \<open>PlanarCaloCells: an object with a plane and a list of cells.\<close>

definition planar_violations :: "string \<Rightarrow> json \<Rightarrow> string list" where
  "planar_violations collectionLabel data =
    (case data of
       JDict kvs \<Rightarrow>
         object_violations data planar_fields collectionLabel ''PlanarCaloCells''
         @ (case map_of kvs ''cells'' of
              Some (JList cells) \<Rightarrow>
                items_violations
                  (\<lambda>n cell. object_violations cell cell_fields
                     (collectionLabel @ '', cell '' @ fmt_d n) ''CaloCell'') 0 cells
            | _ \<Rightarrow> [])
     | _ \<Rightarrow> type_violations data collectionLabel TDict)"

text \<open>The registry of the eleven data types, and the levels above it: a Data
  Collection under its data-type tag, an event, a document.\<close>

definition registry_violations :: "runtime \<Rightarrow> (string \<times> (string \<Rightarrow> json \<Rightarrow> string list)) list" where
  "registry_violations rt =
    [(''Tracks'', item_list_violations tracks_fields ''Track'' ''track'' 1),
     (''Jets'', item_list_violations jets_fields ''Jet'' ''jet'' 1),
     (''Hits'', hits_violations rt),
     (''CaloClusters'', item_list_violations clusters_fields ''CaloCluster/CaloCell'' ''entry'' 0),
     (''CaloCells'', item_list_violations clusters_fields ''CaloCluster/CaloCell'' ''entry'' 0),
     (''PlanarCaloCells'', planar_violations),
     (''Vertices'', item_list_violations vertices_fields ''Vertex'' ''vertex'' 0),
     (''MissingEnergy'', item_list_violations missingE_fields ''MissingEnergy'' ''object'' 0),
     (''Muons'', \<lambda>collectionLabel listValue. []),
     (''Photons'', \<lambda>collectionLabel listValue. []),
     (''Electrons'', \<lambda>collectionLabel listValue. [])]"

definition collection_violations ::
    "runtime \<Rightarrow> string \<Rightarrow> string \<Rightarrow> (string \<times> json) list \<Rightarrow> string list" where
  "collection_violations rt eventName dataType dataValue =
    (case map_of (registry_violations rt) dataType of
       None \<Rightarrow> [''Unknown data type found : '' @ sq @ dataType @ sq]
     | Some viol \<Rightarrow>
         concat (map (\<lambda>(subCollectionName, itemList).
           viol (''event '' @ sq @ eventName @ sq @ '', collection '' @ sq @ subCollectionName @ sq)
             itemList) dataValue))"

definition event_violations :: "runtime \<Rightarrow> string \<Rightarrow> json \<Rightarrow> string list" where
  "event_violations rt eventName eventValue =
    object_violations eventValue event_fields (''top level event '' @ eventName) ''Event''
    @ (case eventValue of
         JDict kvs \<Rightarrow>
           concat (map (\<lambda>(key, v).
             case v of JDict d \<Rightarrow> collection_violations rt eventName key d | _ \<Rightarrow> []) kvs)
       | _ \<Rightarrow> [])"

definition document_violations :: "runtime \<Rightarrow> json \<Rightarrow> string list" where
  "document_violations rt document =
    (case document of
       JDict events \<Rightarrow>
         concat (map (\<lambda>(eventName, eventValue). event_violations rt eventName eventValue) events)
     | _ \<Rightarrow> [''Expected a dictionary at top level''])"

text \<open>A document is proper when the keys of the document, of each event and of each
  Data Collection are distinct, as the keys of a decoded object are.\<close>

definition proper_event :: "json \<Rightarrow> bool" where
  "proper_event eventValue =
    (case eventValue of
       JDict kvs \<Rightarrow>
         distinct (map fst kvs)
         \<and> list_all (\<lambda>(key, v). case v of JDict d \<Rightarrow> distinct (map fst d) | _ \<Rightarrow> True) kvs
     | _ \<Rightarrow> True)"

definition proper_document :: "json \<Rightarrow> bool" where
  "proper_document document =
    (case document of
       JDict events \<Rightarrow>
         distinct (map fst events) \<and> list_all (\<lambda>(eventName, eventValue). proper_event eventValue) events
     | _ \<Rightarrow> True)"

text \<open>A schema table of the checker refines a list of field descriptors when they
  name the same keys in the same order with the same optionality, and each checker
  reports the first violation of the corresponding check.\<close>

definition schema_refines :: "schema \<Rightarrow> field list \<Rightarrow> bool" where
  "schema_refines d fieldList =
    list_all2 (\<lambda>(key, isOpt, checker) (name, optional, viol).
        key = name \<and> isOpt = VBool optional
        \<and> (case checker of
             VFun f \<Rightarrow> (\<forall>v label. f v label = first_of (viol v label))
           | VBool b \<Rightarrow> False))
      d fieldList"

section \<open>Loops and sequencing\<close>

lemma seq_Inr [simp]: "seq (Inr u) k = k"
  by (simp add: seq_def)

lemma seq_Inl [simp]: "seq (Inl e) k = Inl e"
  by (simp add: seq_def)

lemma for_loop_append:
  "for_loop body n (xs @ ys) = seq (for_loop body n xs) (for_loop body (n + length xs) ys)"
  by (induction xs arbitrary: n) (auto split: sum.splits)

lemma for_loop_const_ok_iff:
  "for_loop (\<lambda>n. f) m xs = Inr () \<longleftrightarrow> list_all (\<lambda>x. f x = Inr ()) xs"
  by (induction xs arbitrary: m) (auto split: sum.splits)

lemma for_loop_ok_iff:
  "for_loop body m xs = Inr () \<longleftrightarrow> (\<forall>i < length xs. body (m + i) (xs ! i) = Inr ())"
proof (induction xs arbitrary: m)
  case Nil
  show ?case by simp
next
  case (Cons x xs)
  show ?case
  proof (cases "body m x")
    case (Inl e)
    then show ?thesis by auto
  next
    case (Inr u)
    have "(\<forall>i < length (x # xs). body (m + i) ((x # xs) ! i) = Inr ())
      \<longleftrightarrow> (\<forall>i < length xs. body (Suc m + i) (xs ! i) = Inr ())"
      using Inr by (auto simp: less_Suc_eq_0_disj)
    then show ?thesis using Inr Cons.IH [of "Suc m"] by simp
  qed
qed

lemma for_loop_cong_body:
  "(\<And>n x. x \<in> set xs \<Longrightarrow> f n x = g n x) \<Longrightarrow> for_loop f m xs = for_loop g m xs"
  by (induction xs arbitrary: m) (auto split: sum.splits)

lemma for_loop_first_failure:
  "for_loop body m xs = Inr () \<Longrightarrow> body (m + length xs) y = Inl e \<Longrightarrow>
     for_loop body m (xs @ y # ys) = Inl e"
  by (simp add: for_loop_append)

lemma for_loop_ok_iff_list_all:
  assumes "\<And>n x. body n x = Inr () \<longleftrightarrow> P x"
  shows "for_loop body m xs = Inr () \<longleftrightarrow> list_all P xs"
proof (induction xs arbitrary: m)
  case Nil
  show ?case by simp
next
  case (Cons x xs)
  show ?case
  proof (cases "body m x")
    case (Inl e)
    then have "\<not> P x"
      using assms [of m x] by simp
    then show ?thesis
      using Inl by simp
  next
    case (Inr u)
    then have "P x"
      using assms [of m x] by simp
    then show ?thesis
      using Inr Cons.IH by simp
  qed
qed

lemma seq_Inr_iff: "seq r k = Inr () \<longleftrightarrow> r = Inr () \<and> k = Inr ()"
  by (cases r) simp_all

section \<open>The generic checker\<close>

lemma genericCheck_entry_cong:
  "map_of kvs (fst entry) = map_of kvs' (fst entry) \<Longrightarrow>
     genericCheck_entry kvs objName entry = genericCheck_entry kvs' objName entry"
  by (cases entry) (simp add: genericCheck_entry_def)

lemma genericCheck_Inr_iff:
  "genericCheck (JDict kvs) d objName objType = Inr () \<longleftrightarrow>
     list_all (\<lambda>entry. genericCheck_entry kvs objName entry = Inr ()) d"
  by (simp add: genericCheck_def for_loop_const_ok_iff)

lemma genericCheck_entry_Inr_iff:
  "genericCheck_entry kvs objName (key, isOpt, checker) = Inr () \<longleftrightarrow>
     (case map_of kvs key of
        None \<Rightarrow> truthy isOpt
      | Some v \<Rightarrow> call checker v (objName @ '', attribute '' @ sq @ key @ sq) = Inr ())"
  by (simp add: genericCheck_entry_def split: option.splits)

lemma genericCheck_cong:
  assumes same: "\<forall>key \<in> set (map fst d). map_of kvs key = map_of kvs' key"
  shows "genericCheck (JDict kvs) d objName objType = genericCheck (JDict kvs') d objName objType"
proof -
  have "for_loop (\<lambda>n. genericCheck_entry kvs objName) 0 d
      = for_loop (\<lambda>n. genericCheck_entry kvs' objName) 0 d"
  proof (rule for_loop_cong_body)
    fix n :: nat and entry
    assume "entry \<in> set d"
    then have "map_of kvs (fst entry) = map_of kvs' (fst entry)"
      using same by simp
    then show "genericCheck_entry kvs objName entry = genericCheck_entry kvs' objName entry"
      by (rule genericCheck_entry_cong)
  qed
  then show ?thesis
    by (simp add: genericCheck_def)
qed

lemma map_of_filter_keys:
  "key \<in> K \<Longrightarrow> map_of (filter (\<lambda>(k, v). k \<in> K) kvs) key = map_of kvs key"
  by (induction kvs) auto

text \<open>
  C5. \<^verbatim>\<open>genericCheck\<close> never fails on account of a key of the value that the
  schema does not list. For every dict and every schema: dropping from the dict
  all the keys that the schema does not list leaves the outcome as it is; two dicts
  that agree on the keys of the schema have the same outcome; and the check
  succeeds exactly when every entry of the schema whose key is absent is optional
  and every entry whose key is present has a checker that succeeds on the value.
\<close>

theorem genericCheck_ignores_unlisted_keys:
  "genericCheck (JDict kvs) d objName objType
     = genericCheck (JDict (filter (\<lambda>(k, v). k \<in> set (map fst d)) kvs)) d objName objType
   \<and> ((\<forall>key \<in> set (map fst d). map_of kvs key = map_of kvs' key) \<longrightarrow>
        genericCheck (JDict kvs) d objName objType = genericCheck (JDict kvs') d objName objType)
   \<and> (genericCheck (JDict kvs) d objName objType = Inr () \<longleftrightarrow>
        (\<forall>(key, isOpt, checker) \<in> set d.
           case map_of kvs key of
             None \<Rightarrow> truthy isOpt
           | Some v \<Rightarrow> call checker v (objName @ '', attribute '' @ sq @ key @ sq) = Inr ()))"
proof (intro conjI impI)
  show "genericCheck (JDict kvs) d objName objType
     = genericCheck (JDict (filter (\<lambda>(k, v). k \<in> set (map fst d)) kvs)) d objName objType"
    by (rule genericCheck_cong) (simp add: map_of_filter_keys)
next
  assume "\<forall>key \<in> set (map fst d). map_of kvs key = map_of kvs' key"
  then show "genericCheck (JDict kvs) d objName objType = genericCheck (JDict kvs') d objName objType"
    by (rule genericCheck_cong)
next
  show "genericCheck (JDict kvs) d objName objType = Inr () \<longleftrightarrow>
        (\<forall>(key, isOpt, checker) \<in> set d.
           case map_of kvs key of
             None \<Rightarrow> truthy isOpt
           | Some v \<Rightarrow> call checker v (objName @ '', attribute '' @ sq @ key @ sq) = Inr ())"
    by (auto simp: genericCheck_Inr_iff list_all_iff genericCheck_entry_Inr_iff)
qed

theorem genericCheck_ignores_unlisted_keys_witness:
  "genericCheck (JDict [(''etx'', JInt 1), (''note'', JNull), (''ety'', JInt 2)]) missingE_entries ''m'' ''M''
     = genericCheck (JDict [(''etx'', JInt 1), (''ety'', JInt 2)]) missingE_entries ''m'' ''M''
   \<and> genericCheck (JDict [(''etx'', JInt 1), (''note'', JNull), (''ety'', JInt 2)]) missingE_entries ''m'' ''M''
     = Inr ()"
  using genericCheck_ignores_unlisted_keys
    [of "[(''etx'', JInt 1), (''note'', JNull), (''ety'', JInt 2)]" missingE_entries "''m''" "''M''"
        "[(''etx'', JInt 1), (''ety'', JInt 2)]"]
  by (simp add: missingE_entries_def tuple2_def floatCheck_def isinstance_def genericCheck_def
      genericCheck_entry_def)

lemma genericCheck_non_dict:
  "type_of j \<noteq> TDict \<Longrightarrow> genericCheck j d objName objType \<noteq> Inr ()"
  by (cases j) (simp_all add: genericCheck_def)

section \<open>Numeric checks\<close>

lemma floatCheck_bool: "floatCheck (JBool b) name = Inr ()"
  by (simp add: floatCheck_def isinstance_def)

lemma for_loop_floatCheck_bools:
  "for_loop (\<lambda>n item. floatCheck item (f n)) m (map JBool bs) = Inr ()"
  by (induction bs arbitrary: m) (simp_all add: floatCheck_bool)

text \<open>
  C10. Every numeric check accepts a Python boolean: \<^verbatim>\<open>floatCheck\<close> returns on
  \<^verbatim>\<open>True\<close> and \<^verbatim>\<open>False\<close> (a bool is an instance of \<^verbatim>\<open>int\<close>), so
  \<^verbatim>\<open>floatListCheck\<close> returns on a list of booleans, with no expected length or
  with the right one, and so do the schema fields built on them: a Jet whose
  \<^verbatim>\<open>eta\<close> and \<^verbatim>\<open>phi\<close> are booleans, a Track whose \<^verbatim>\<open>dparams\<close> are five booleans.
\<close>

theorem numeric_checks_accept_bool:
  "floatCheck (JBool b) name = Inr ()
   \<and> floatListCheck (JList (map JBool bs)) name (- 1) = Inr ()
   \<and> floatListCheck (JList (map JBool bs)) name (int (length bs)) = Inr ()
   \<and> jetsCheck data_name (JList [JDict [(''eta'', JBool True), (''phi'', JBool False)]]) = Inr ()
   \<and> tracksCheck data_name
        (JList [JDict [(''pos'', JList []), (''dparams'', JList (map JBool [b1, b2, b3, b4, b5]))]])
       = Inr ()"
proof -
  have 1: "floatCheck (JBool b) name = Inr ()"
    by (rule floatCheck_bool)
  have 2: "floatListCheck (JList (map JBool bs)) name (- 1) = Inr ()"
    by (simp add: floatListCheck_def genericTypeCheck_def isinstance_def for_loop_floatCheck_bools)
  have 3: "floatListCheck (JList (map JBool bs)) name (int (length bs)) = Inr ()"
    by (simp add: floatListCheck_def genericTypeCheck_def isinstance_def for_loop_floatCheck_bools)
  have 4: "jetsCheck data_name (JList [JDict [(''eta'', JBool True), (''phi'', JBool False)]]) = Inr ()"
    by (simp add: jetsCheck_def genericTypeCheck_def isinstance_def genericCheck_def
        jets_entries_def tuple2_def genericCheck_entry_def floatCheck_bool)
  have 5: "tracksCheck data_name
        (JList [JDict [(''pos'', JList []), (''dparams'', JList (map JBool [b1, b2, b3, b4, b5]))]])
       = Inr ()"
    using for_loop_floatCheck_bools [of _ 0 "[b1, b2, b3, b4, b5]"]
    by (simp add: tracksCheck_def genericTypeCheck_def isinstance_def genericCheck_def
        tracks_entries_def tuple2_def genericCheck_entry_def posAttributeCheck_def
        floatListCheck_def floatCheck_bool)
  from 1 2 3 4 5 show ?thesis by blast
qed

lemma floatCheck_Inr_iff: "floatCheck j name = Inr () \<longleftrightarrow> numeric j"
  by (auto simp: floatCheck_def numeric_def isinstance_def)

lemma for_loop_floatCheck_iff:
  "for_loop (\<lambda>n item. floatCheck item (f n)) m items = Inr () \<longleftrightarrow> list_all numeric items"
  by (rule for_loop_ok_iff_list_all) (rule floatCheck_Inr_iff)

lemma floatListCheck_Inr_iff:
  "floatListCheck j name nitems = Inr () \<longleftrightarrow>
     (case j of
        JList items \<Rightarrow> (nitems \<ge> 0 \<longrightarrow> int (length items) = nitems) \<and> list_all numeric items
      | _ \<Rightarrow> False)"
  by (cases j)
    (auto simp: floatListCheck_def genericTypeCheck_def isinstance_def for_loop_floatCheck_iff)

lemma colorAttributeCheck_Inr_iff:
  "colorAttributeCheck j name = Inr () \<longleftrightarrow> type_of j = TStr"
  by (auto simp: colorAttributeCheck_def genericTypeCheck_def isinstance_def)

section \<open>Dispatch on the data type\<close>

lemma for_loop_lookup_items:
  assumes "\<forall>(k, v) \<in> set xs. map_of kvs k = Some v"
  shows "for_loop (\<lambda>n k. case map_of kvs k of None \<Rightarrow> Inl KeyError | Some v \<Rightarrow> f k v) m (map fst xs)
       = for_loop (\<lambda>n (k, v). f k v) m xs"
  using assms by (induction xs arbitrary: m) (auto split: sum.splits)

lemma distinct_map_of_items:
  "distinct (map fst kvs) \<Longrightarrow> \<forall>(k, v) \<in> set kvs. map_of kvs k = Some v"
  by auto

lemma for_loop_dict_items:
  "distinct (map fst kvs) \<Longrightarrow>
     for_loop (\<lambda>n k. case map_of kvs k of None \<Rightarrow> Inl KeyError | Some v \<Rightarrow> f k v) m (map fst kvs)
       = for_loop (\<lambda>n (k, v). f k v) m kvs"
  by (rule for_loop_lookup_items) (rule distinct_map_of_items)

lemma KnownDataTypes_keys:
  "map fst (KnownDataTypes rt) =
     [''Tracks'', ''Jets'', ''Hits'', ''CaloClusters'', ''CaloCells'', ''PlanarCaloCells'',
      ''Vertices'', ''MissingEnergy'', ''Muons'', ''Photons'', ''Electrons'']"
  by (simp add: KnownDataTypes_def)

lemma KnownDataTypes_distinct: "distinct (map fst (KnownDataTypes rt))"
  unfolding KnownDataTypes_keys by simp

lemma eventDataCheck_unknown:
  "data_type \<notin> set (map fst (KnownDataTypes rt)) \<Longrightarrow>
     eventDataCheck rt event_name data_type data
       = Inl (PhoenixFormatError (''Unknown data type found : '' @ sq @ data_type @ sq))"
  by (simp add: eventDataCheck_def)

lemma eventDataCheck_known:
  assumes "map_of (KnownDataTypes rt) data_type = Some chk" and "distinct (map fst data)"
  shows "eventDataCheck rt event_name data_type data
       = for_loop (\<lambda>n (collection_name, v).
           chk (''event '' @ sq @ event_name @ sq @ '', collection '' @ sq @ collection_name @ sq) v)
          0 data"
proof -
  have "data_type \<in> set (map fst (KnownDataTypes rt))"
    using assms(1) by (metis map_of_eq_None_iff option.distinct(1) set_map)
  then show ?thesis
    using assms for_loop_dict_items [of data _ 0]
    by (simp add: eventDataCheck_def)
qed

text \<open>
  C4. The dispatch table has exactly the eleven tags Tracks, Jets, Hits,
  CaloClusters, CaloCells, PlanarCaloCells, Vertices, MissingEnergy, Muons, Photons
  and Electrons. For a tag that is none of them \<^verbatim>\<open>eventDataCheck\<close> fails with
  \<^verbatim>\<open>Unknown data type found : 'TAG'\<close>, whatever the value holds. For a tag of the
  table it runs that tag's checker on every collection of the value, in order,
  under the label \<^verbatim>\<open>event 'EVENT', collection 'NAME'\<close>, up to the first failure.
\<close>

theorem eventDataCheck_dispatch:
  "KnownDataTypes rt =
     [(''Tracks'', tracksCheck), (''Jets'', jetsCheck), (''Hits'', hitsCheck rt),
      (''CaloClusters'', clustersCheck), (''CaloCells'', clustersCheck),
      (''PlanarCaloCells'', planarCaloCheck), (''Vertices'', verticesCheck),
      (''MissingEnergy'', missingECheck), (''Muons'', compoundCheck),
      (''Photons'', compoundCheck), (''Electrons'', compoundCheck)]
   \<and> (data_type \<notin> set [''Tracks'', ''Jets'', ''Hits'', ''CaloClusters'', ''CaloCells'',
          ''PlanarCaloCells'', ''Vertices'', ''MissingEnergy'', ''Muons'', ''Photons'', ''Electrons'']
        \<longrightarrow> eventDataCheck rt event_name data_type data
              = Inl (PhoenixFormatError (''Unknown data type found : '' @ sq @ data_type @ sq)))
   \<and> ((data_type, chk) \<in> set (KnownDataTypes rt) \<and> distinct (map fst data)
        \<longrightarrow> eventDataCheck rt event_name data_type data
              = for_loop (\<lambda>n (collection_name, v).
                  chk (''event '' @ sq @ event_name @ sq @ '', collection '' @ sq
                         @ collection_name @ sq) v) 0 data)"
proof (intro conjI impI)
  show "KnownDataTypes rt =
     [(''Tracks'', tracksCheck), (''Jets'', jetsCheck), (''Hits'', hitsCheck rt),
      (''CaloClusters'', clustersCheck), (''CaloCells'', clustersCheck),
      (''PlanarCaloCells'', planarCaloCheck), (''Vertices'', verticesCheck),
      (''MissingEnergy'', missingECheck), (''Muons'', compoundCheck),
      (''Photons'', compoundCheck), (''Electrons'', compoundCheck)]"
    by (simp add: KnownDataTypes_def)
next
  assume "data_type \<notin> set [''Tracks'', ''Jets'', ''Hits'', ''CaloClusters'', ''CaloCells'',
          ''PlanarCaloCells'', ''Vertices'', ''MissingEnergy'', ''Muons'', ''Photons'', ''Electrons'']"
  then have "data_type \<notin> set (map fst (KnownDataTypes rt))"
    unfolding KnownDataTypes_keys .
  then show "eventDataCheck rt event_name data_type data
              = Inl (PhoenixFormatError (''Unknown data type found : '' @ sq @ data_type @ sq))"
    by (rule eventDataCheck_unknown)
next
  assume "(data_type, chk) \<in> set (KnownDataTypes rt) \<and> distinct (map fst data)"
  then have "map_of (KnownDataTypes rt) data_type = Some chk" and "distinct (map fst data)"
    using KnownDataTypes_distinct [of rt] by simp_all
  then show "eventDataCheck rt event_name data_type data
              = for_loop (\<lambda>n (collection_name, v).
                  chk (''event '' @ sq @ event_name @ sq @ '', collection '' @ sq
                         @ collection_name @ sq) v) 0 data"
    by (rule eventDataCheck_known)
qed

theorem eventDataCheck_dispatch_witness:
  "eventDataCheck \<lparr>set_display_order = True, py_str = (\<lambda>j. '''')\<rparr> ''ev'' ''Quarks''
      [(''c'', JList [])]
     = Inl (PhoenixFormatError (''Unknown data type found : '' @ sq @ ''Quarks'' @ sq))
   \<and> eventDataCheck \<lparr>set_display_order = True, py_str = (\<lambda>j. '''')\<rparr> ''ev'' ''Jets''
      [(''a'', JList []), (''b'', JInt 3)]
     = Inl (PhoenixFormatError
         (''Expected the event '' @ sq @ ''ev'' @ sq @ '', collection '' @ sq @ ''b'' @ sq
            @ '' to be of type '' @ dq @ ''list'' @ dq @ '', found int''))"
  using eventDataCheck_dispatch
      [of "\<lparr>set_display_order = True, py_str = (\<lambda>j. '''')\<rparr>" "''Quarks''" "''ev''"
          "[(''c'', JList [])]"]
    eventDataCheck_dispatch
      [of "\<lparr>set_display_order = True, py_str = (\<lambda>j. '''')\<rparr>" "''Jets''" "''ev''"
          "[(''a'', JList []), (''b'', JInt 3)]" jetsCheck]
  by (simp add: jetsCheck_def genericTypeCheck_def isinstance_def)

section \<open>Events\<close>

lemma event_entries_display_order:
  "set_display_order rt \<Longrightarrow>
     event_entries rt =
       [(''event number'', VBool False, VFun noCheck), (''run number'', VBool False, VFun noCheck)]"
  by (simp add: event_entries_def set2_def)

lemma event_entries_reversed:
  "\<not> set_display_order rt \<Longrightarrow>
     event_entries rt =
       [(''event number'', VFun noCheck, VBool False), (''run number'', VFun noCheck, VBool False)]"
  by (simp add: event_entries_def set2_def)

text \<open>
  C2. On an interpreter that unpacks the set display \<^verbatim>\<open>{False, noCheck}\<close> in the
  order it is written (CPython does: \<^verbatim>\<open>False\<close> is inserted first and hashes to the
  first slot of the table), an event object without the key \<^verbatim>\<open>event number\<close> fails
  with \<^verbatim>\<open>Expected a 'event number' attribute in top level event NAME\<close>; one that
  has it and is without \<^verbatim>\<open>run number\<close> fails with the same message for
  \<^verbatim>\<open>run number\<close>; and when both keys are present the check of the two keys
  returns whatever their values are.
\<close>

theorem eventCheck_mandatory_keys:
  assumes "set_display_order rt"
  shows "(map_of kvs ''event number'' = None \<longrightarrow>
            eventCheck rt event_name (JDict kvs) = Inl (PhoenixFormatError
              (''Expected a '' @ sq @ ''event number'' @ sq @ '' attribute in top level event ''
                 @ event_name)))
       \<and> (map_of kvs ''event number'' \<noteq> None \<and> map_of kvs ''run number'' = None \<longrightarrow>
            eventCheck rt event_name (JDict kvs) = Inl (PhoenixFormatError
              (''Expected a '' @ sq @ ''run number'' @ sq @ '' attribute in top level event ''
                 @ event_name)))
       \<and> (map_of kvs ''event number'' \<noteq> None \<and> map_of kvs ''run number'' \<noteq> None \<longrightarrow>
            genericCheck (JDict kvs) (event_entries rt) (''top level event '' @ event_name) ''Event''
              = Inr ())"
  using assms
  by (auto simp: eventCheck_def genericCheck_def event_entries_display_order
      genericCheck_entry_def noCheck_def)

theorem eventCheck_mandatory_keys_witness:
  "eventCheck \<lparr>set_display_order = True, py_str = (\<lambda>j. '''')\<rparr> ''ev''
      (JDict [(''event number'', JInt 7)])
     = Inl (PhoenixFormatError (''Expected a '' @ sq @ ''run number'' @ sq @ '' attribute in top level event ev''))
   \<and> eventCheck \<lparr>set_display_order = True, py_str = (\<lambda>j. '''')\<rparr> ''ev''
      (JDict [(''run number'', JInt 7)])
     = Inl (PhoenixFormatError (''Expected a '' @ sq @ ''event number'' @ sq @ '' attribute in top level event ev''))
   \<and> genericCheck (JDict [(''event number'', JNull), (''run number'', JList [])])
        (event_entries \<lparr>set_display_order = True, py_str = (\<lambda>j. '''')\<rparr>)
        (''top level event '' @ ''ev'') ''Event'' = Inr ()"
  using eventCheck_mandatory_keys
      [of "\<lparr>set_display_order = True, py_str = (\<lambda>j. '''')\<rparr>" "[(''event number'', JInt 7)]" "''ev''"]
    eventCheck_mandatory_keys
      [of "\<lparr>set_display_order = True, py_str = (\<lambda>j. '''')\<rparr>" "[(''run number'', JInt 7)]" "''ev''"]
    eventCheck_mandatory_keys
      [of "\<lparr>set_display_order = True, py_str = (\<lambda>j. '''')\<rparr>"
          "[(''event number'', JNull), (''run number'', JList [])]" "''ev''"]
  by simp

text \<open>
  Under the other iteration order \<^verbatim>\<open>isOpt\<close> is the function and \<^verbatim>\<open>checker\<close> is
  \<^verbatim>\<open>False\<close>: a missing key goes unnoticed and a present one raises
  \<^verbatim>\<open>TypeError\<close>, since a bool cannot be called.
\<close>

lemma eventCheck_reversed_order:
  assumes "\<not> set_display_order rt"
  shows "eventCheck rt event_name (JDict []) = Inr ()"
    and "eventCheck rt event_name (JDict [(''event number'', v)]) = Inl TypeError"
  using assms
  by (simp_all add: eventCheck_def genericCheck_def event_entries_reversed genericCheck_entry_def)

lemma collections_of_append:
  "collections_of (xs @ ys) = collections_of xs @ collections_of ys"
  by (induction xs rule: collections_of.induct) simp_all

lemma collections_of_non_dict:
  "type_of v \<noteq> TDict \<Longrightarrow> collections_of ((k, v) # kvs) = collections_of kvs"
  by (cases v) simp_all

lemma for_loop_collections:
  "for_loop (\<lambda>n (k, v). case v of JDict d \<Rightarrow> f k d | _ \<Rightarrow> Inr ()) m kvs
     = for_loop (\<lambda>n (k, d). f k d) m' (collections_of kvs)"
proof (induction kvs arbitrary: m m' rule: collections_of.induct)
  case 1
  show ?case by simp
next
  case (2 key d kvs)
  show ?case
    using "2.IH" [of "Suc m" "Suc m'"] by (simp split: sum.splits)
qed (simp_all)

lemma eventCheck_data_loop:
  assumes "distinct (map fst kvs)"
  shows "for_loop (\<lambda>n. eventCheck_data rt event_name kvs) 0 (map fst kvs)
       = for_loop (\<lambda>n (k, d). eventDataCheck rt event_name k d) 0 (collections_of kvs)"
proof -
  have "for_loop (\<lambda>n. eventCheck_data rt event_name kvs) 0 (map fst kvs)
      = for_loop (\<lambda>n k. case map_of kvs k of None \<Rightarrow> Inl KeyError
           | Some v \<Rightarrow> (case v of JDict d \<Rightarrow> eventDataCheck rt event_name k d | _ \<Rightarrow> Inr ()))
          0 (map fst kvs)"
    by (rule for_loop_cong_body) (simp add: eventCheck_data_def split: option.splits json.splits)
  also have "\<dots> = for_loop (\<lambda>n (k, v). case v of JDict d \<Rightarrow> eventDataCheck rt event_name k d
           | _ \<Rightarrow> Inr ()) 0 kvs"
    by (rule for_loop_dict_items) (rule assms)
  also have "\<dots> = for_loop (\<lambda>n (k, d). eventDataCheck rt event_name k d) 0 (collections_of kvs)"
    by (rule for_loop_collections)
  finally show ?thesis .
qed

lemma eventCheck_collections:
  assumes "distinct (map fst kvs)"
  shows "eventCheck rt event_name (JDict kvs)
       = seq (genericCheck (JDict kvs) (event_entries rt) (''top level event '' @ event_name) ''Event'')
           (for_loop (\<lambda>n (k, d). eventDataCheck rt event_name k d) 0 (collections_of kvs))"
  by (simp add: eventCheck_def eventCheck_data_loop [OF assms])

lemma event_genericCheck_Inr_iff:
  assumes "set_display_order rt"
  shows "genericCheck (JDict kvs) (event_entries rt) objName objType = Inr ()
     \<longleftrightarrow> map_of kvs ''event number'' \<noteq> None \<and> map_of kvs ''run number'' \<noteq> None"
  by (auto simp: genericCheck_Inr_iff event_entries_display_order [OF assms]
      genericCheck_entry_Inr_iff noCheck_def split: option.splits)

lemma map_of_insert_other:
  "key \<noteq> k \<Longrightarrow> map_of (xs @ (k, v) # ys) key = map_of (xs @ ys) key"
  by (simp add: map_of_append map_add_def split: option.splits)

lemma map_of_insert_None:
  assumes "map_of (xs @ ys) key \<noteq> None"
  shows "map_of (xs @ (k, v) # ys) key \<noteq> None"
proof (cases "key = k")
  case True
  have "k \<in> fst ` set (xs @ (k, v) # ys)"
    by simp
  then show ?thesis
    unfolding True map_of_eq_None_iff by simp
next
  case False
  then have "map_of (xs @ (k, v) # ys) key = map_of (xs @ ys) key"
    by (rule map_of_insert_other)
  then show ?thesis
    using assms by simp
qed

text \<open>
  C7. For an event whose keys are distinct, as those of a dict are:
  \<^verbatim>\<open>eventCheck\<close> is the check of the two mandatory keys followed by
  \<^verbatim>\<open>eventDataCheck\<close> on each key whose value is an object, with that key as the
  data type, in order; an entry whose value is not an object is no part of that
  loop; unless its key is one of the two mandatory keys, the outcome with the entry
  is the outcome without it; and, on an interpreter that unpacks the set display
  \<^verbatim>\<open>{False, noCheck}\<close> in the order it is written, an event that passes without
  the entry passes with it.
\<close>

theorem eventCheck_skips_non_dicts:
  assumes "distinct (map fst (xs @ (k, v) # ys))"
  shows "eventCheck rt event_name (JDict (xs @ (k, v) # ys))
       = seq (genericCheck (JDict (xs @ (k, v) # ys)) (event_entries rt)
                (''top level event '' @ event_name) ''Event'')
           (for_loop (\<lambda>n (data_type, d). eventDataCheck rt event_name data_type d) 0
              (collections_of (xs @ (k, v) # ys)))
     \<and> (type_of v \<noteq> TDict \<longrightarrow>
          collections_of (xs @ (k, v) # ys) = collections_of (xs @ ys))
     \<and> (type_of v \<noteq> TDict \<and> k \<noteq> ''event number'' \<and> k \<noteq> ''run number'' \<longrightarrow>
          eventCheck rt event_name (JDict (xs @ (k, v) # ys))
            = eventCheck rt event_name (JDict (xs @ ys)))
     \<and> (type_of v \<noteq> TDict \<and> set_display_order rt
            \<and> eventCheck rt event_name (JDict (xs @ ys)) = Inr () \<longrightarrow>
          eventCheck rt event_name (JDict (xs @ (k, v) # ys)) = Inr ())"
proof (intro conjI impI)
  have d2: "distinct (map fst (xs @ ys))"
    using assms by auto
  note full = eventCheck_collections [OF assms, of rt event_name]
  note part = eventCheck_collections [OF d2, of rt event_name]
  show "eventCheck rt event_name (JDict (xs @ (k, v) # ys))
       = seq (genericCheck (JDict (xs @ (k, v) # ys)) (event_entries rt)
                (''top level event '' @ event_name) ''Event'')
           (for_loop (\<lambda>n (data_type, d). eventDataCheck rt event_name data_type d) 0
              (collections_of (xs @ (k, v) # ys)))"
    by (rule full)
  {
    assume "type_of v \<noteq> TDict"
    then show "collections_of (xs @ (k, v) # ys) = collections_of (xs @ ys)"
      by (simp add: collections_of_append collections_of_non_dict)
  }
  {
    assume a: "type_of v \<noteq> TDict \<and> k \<noteq> ''event number'' \<and> k \<noteq> ''run number''"
    then have cols: "collections_of (xs @ (k, v) # ys) = collections_of (xs @ ys)"
      by (simp add: collections_of_append collections_of_non_dict)
    have "\<forall>key \<in> set (map fst (event_entries rt)).
        map_of (xs @ (k, v) # ys) key = map_of (xs @ ys) key"
    proof
      fix key
      assume "key \<in> set (map fst (event_entries rt))"
      then have "key \<noteq> k"
        using a by (auto simp: event_entries_def)
      then show "map_of (xs @ (k, v) # ys) key = map_of (xs @ ys) key"
        by (rule map_of_insert_other)
    qed
    then have "genericCheck (JDict (xs @ (k, v) # ys)) (event_entries rt)
              (''top level event '' @ event_name) ''Event''
        = genericCheck (JDict (xs @ ys)) (event_entries rt)
              (''top level event '' @ event_name) ''Event''"
      by (rule genericCheck_cong)
    then show "eventCheck rt event_name (JDict (xs @ (k, v) # ys))
            = eventCheck rt event_name (JDict (xs @ ys))"
      by (simp only: full part cols)
  }
  {
    assume a: "type_of v \<noteq> TDict \<and> set_display_order rt
            \<and> eventCheck rt event_name (JDict (xs @ ys)) = Inr ()"
    then have cols: "collections_of (xs @ (k, v) # ys) = collections_of (xs @ ys)"
      by (simp add: collections_of_append collections_of_non_dict)
    have ord: "set_display_order rt"
      using a by simp
    from a have ok: "genericCheck (JDict (xs @ ys)) (event_entries rt)
              (''top level event '' @ event_name) ''Event'' = Inr ()"
      and loop: "for_loop (\<lambda>n (k, d). eventDataCheck rt event_name k d) 0 (collections_of (xs @ ys))
          = Inr ()"
      unfolding part by (simp_all add: seq_Inr_iff)
    have "genericCheck (JDict (xs @ (k, v) # ys)) (event_entries rt)
              (''top level event '' @ event_name) ''Event'' = Inr ()"
      using ok unfolding event_genericCheck_Inr_iff [OF ord]
      by (simp only: map_of_insert_None not_False_eq_True simp_thms)
    then show "eventCheck rt event_name (JDict (xs @ (k, v) # ys)) = Inr ()"
      using loop by (simp only: full cols seq_Inr)
  }
qed

theorem eventCheck_skips_non_dicts_witness:
  "eventCheck \<lparr>set_display_order = True, py_str = (\<lambda>j. '''')\<rparr> ''e''
      (JDict ([(''event number'', JInt 1)] @ (''Quarks'', JList [JNull]) #
              [(''run number'', JInt 2), (''Jets'', JDict [])]))
     = Inr ()
   \<and> collections_of ([(''event number'', JInt 1)] @ (''Quarks'', JList [JNull]) #
              [(''run number'', JInt 2), (''Jets'', JDict [])]) = [(''Jets'', [])]"
  using eventCheck_skips_non_dicts
    [of "[(''event number'', JInt 1)]" "''Quarks''" "JList [JNull]"
        "[(''run number'', JInt 2), (''Jets'', JDict [])]"
        "\<lparr>set_display_order = True, py_str = (\<lambda>j. '''')\<rparr>" "''e''"]
  by (simp add: eventCheck_def genericCheck_def event_entries_def set2_def
      genericCheck_entry_def noCheck_def eventCheck_data_def eventDataCheck_def KnownDataTypes_def)

section \<open>Hits\<close>


lemma hitTypeCheck_Inr_iff:
  "hitTypeCheck rt j name = Inr () \<longleftrightarrow> j = JStr ''Point'' \<or> j = JStr ''Box'' \<or> j = JStr ''Line''"
  by (auto simp: hitTypeCheck_def)

lemma hit_genericCheck_Inr_iff:
  "genericCheck (JDict kvs) (hit_entries rt) objName ''Hit'' = Inr () \<longleftrightarrow>
     (case map_of kvs ''type'' of None \<Rightarrow> True
        | Some t \<Rightarrow> t = JStr ''Point'' \<or> t = JStr ''Box'' \<or> t = JStr ''Line'')
     \<and> (case map_of kvs ''pos'' of Some (JList ps) \<Rightarrow> list_all numeric ps | _ \<Rightarrow> False)
     \<and> (case map_of kvs ''color'' of None \<Rightarrow> True | Some c \<Rightarrow> type_of c = TStr)"
  by (simp add: genericCheck_Inr_iff hit_entries_def tuple2_def genericCheck_entry_Inr_iff
        hitTypeCheck_Inr_iff floatListCheck_Inr_iff colorAttributeCheck_Inr_iff
      split: option.splits json.splits)





text \<open>
  C9. A Hits collection whose item list is empty is accepted: \<^verbatim>\<open>hitsCheck\<close>
  returns at the length test, before it probes a first element or checks any
  element, whatever the label and the interpreter.
\<close>

theorem hitsCheck_empty: "hitsCheck rt data_name (JList []) = Inr ()"
  by (simp add: hitsCheck_def genericTypeCheck_def isinstance_def)

section \<open>The single error kind\<close>

lemma feo_Inr [simp]: "format_error_only (Inr u)"
  by (simp add: format_error_only_def)

lemma feo_PFE [simp]: "format_error_only (Inl (PhoenixFormatError m))"
  by (simp add: format_error_only_def)

lemma feo_Inl_iff: "format_error_only (Inl e) \<longleftrightarrow> (\<exists>m. e = PhoenixFormatError m)"
  by (cases e) (simp_all add: format_error_only_def)

lemma feo_iff: "format_error_only r \<longleftrightarrow> r = Inr () \<or> (\<exists>m. r = Inl (PhoenixFormatError m))"
  by (cases r) (auto simp: feo_Inl_iff)

lemma feo_seq: "format_error_only r \<Longrightarrow> (r = Inr () \<Longrightarrow> format_error_only k) \<Longrightarrow> format_error_only (seq r k)"
  by (cases r) simp_all

lemma feo_for_loop:
  "(\<And>n x. x \<in> set xs \<Longrightarrow> format_error_only (body n x)) \<Longrightarrow> format_error_only (for_loop body m xs)"
proof (induction xs arbitrary: m)
  case Nil
  show ?case by simp
next
  case (Cons x xs)
  have "format_error_only (body m x)"
    by (rule Cons.prems) simp
  moreover have "format_error_only (for_loop body (Suc m) xs)"
    by (rule Cons.IH) (simp add: Cons.prems)
  ultimately show ?case
    by (cases "body m x") simp_all
qed

lemma feo_genericTypeCheck: "format_error_only (genericTypeCheck j objName typ)"
  by (simp add: genericTypeCheck_def)

lemma feo_floatCheck: "format_error_only (floatCheck j name)"
  by (simp add: floatCheck_def)

lemma feo_colorAttributeCheck: "format_error_only (colorAttributeCheck j name)"
  by (simp add: colorAttributeCheck_def feo_genericTypeCheck)

lemma feo_hitTypeCheck: "format_error_only (hitTypeCheck rt j name)"
  by (simp add: hitTypeCheck_def)

lemma genericTypeCheck_Inr_iff: "genericTypeCheck j objName typ = Inr () \<longleftrightarrow> isinstance j typ"
  by (simp add: genericTypeCheck_def)

lemma isinstance_TList: "isinstance j TList \<longleftrightarrow> (\<exists>xs. j = JList xs)"
  by (cases j) (simp_all add: isinstance_def)

lemma isinstance_TDict: "isinstance j TDict \<longleftrightarrow> (\<exists>kvs. j = JDict kvs)"
  by (cases j) (simp_all add: isinstance_def)

lemma feo_floatListCheck: "format_error_only (floatListCheck j name nitems)"
  unfolding floatListCheck_def
proof (rule feo_seq)
  show "format_error_only (genericTypeCheck j name TList)"
    by (rule feo_genericTypeCheck)
next
  assume "genericTypeCheck j name TList = Inr ()"
  then obtain items where "j = JList items"
    by (auto simp: genericTypeCheck_Inr_iff isinstance_TList)
  then show "format_error_only
     (case j of
        JList items \<Rightarrow>
          if nitems \<ge> 0 \<and> int (length items) \<noteq> nitems
          then Inl (PhoenixFormatError
            (''Expected '' @ fmt_d (nat nitems) @ '' entries in '' @ name @ '', got ''
               @ fmt_d (length items)))
          else for_loop (\<lambda>n item. floatCheck item (name @ '', item '' @ fmt_d n)) 0 items
      | _ \<Rightarrow> Inl TypeError)"
    by (simp add: feo_for_loop feo_floatCheck)
qed

lemma feo_posAttributeCheck: "format_error_only (posAttributeCheck positions name)"
  unfolding posAttributeCheck_def
proof (rule feo_seq)
  show "format_error_only (genericTypeCheck positions name TList)"
    by (rule feo_genericTypeCheck)
next
  assume "genericTypeCheck positions name TList = Inr ()"
  then obtain ps where "positions = JList ps"
    by (auto simp: genericTypeCheck_Inr_iff isinstance_TList)
  then show "format_error_only
     (case positions of
        JList ps \<Rightarrow> for_loop (\<lambda>n pos. floatListCheck pos (name @ '', item '' @ fmt_d n) 3) 0 ps
      | _ \<Rightarrow> Inl TypeError)"
    by (simp add: feo_for_loop feo_floatListCheck)
qed

lemma feo_call: 
  "(case checker of VFun f \<Rightarrow> (\<forall>v name. format_error_only (f v name)) | VBool b \<Rightarrow> False) \<Longrightarrow>
     format_error_only (call checker v name)"
  by (cases checker) simp_all

lemma feo_genericCheck:
  assumes "schema_of_checkers d"
  shows "format_error_only (genericCheck j d objName objType)"
proof (cases j)
  case (JDict kvs)
  have "format_error_only (for_loop (\<lambda>n. genericCheck_entry kvs objName) 0 d)"
  proof (rule feo_for_loop)
    fix n :: nat and entry
    assume "entry \<in> set d"
    then show "format_error_only (genericCheck_entry kvs objName entry)"
      using assms
      by (cases entry)
        (auto simp: schema_of_checkers_def list_all_iff genericCheck_entry_def feo_call
          split: option.splits)
  qed
  then show ?thesis
    using JDict by (simp add: genericCheck_def)
qed (simp_all add: genericCheck_def)

lemma schema_tracks: "schema_of_checkers tracks_entries"
  by (simp add: schema_of_checkers_def tracks_entries_def tuple2_def feo_posAttributeCheck
      feo_colorAttributeCheck feo_floatListCheck feo_floatCheck)

lemma schema_jets: "schema_of_checkers jets_entries"
  by (simp add: schema_of_checkers_def jets_entries_def tuple2_def feo_colorAttributeCheck
      feo_floatCheck)

lemma schema_hit: "schema_of_checkers (hit_entries rt)"
  by (simp add: schema_of_checkers_def hit_entries_def tuple2_def feo_colorAttributeCheck
      feo_floatListCheck feo_hitTypeCheck)

lemma schema_clusters: "schema_of_checkers clusters_entries"
  by (simp add: schema_of_checkers_def clusters_entries_def tuple2_def feo_floatCheck)

lemma schema_planar: "schema_of_checkers planar_entries"
  by (simp add: schema_of_checkers_def planar_entries_def tuple2_def feo_floatListCheck
      feo_genericTypeCheck)

lemma schema_cell: "schema_of_checkers cell_entries"
  by (simp add: schema_of_checkers_def cell_entries_def tuple2_def feo_floatListCheck
      feo_floatCheck feo_colorAttributeCheck)

lemma schema_vertices: "schema_of_checkers vertices_entries"
  by (simp add: schema_of_checkers_def vertices_entries_def tuple2_def feo_floatCheck
      feo_colorAttributeCheck)

lemma schema_missingE: "schema_of_checkers missingE_entries"
  by (simp add: schema_of_checkers_def missingE_entries_def tuple2_def feo_floatCheck
      feo_colorAttributeCheck)

lemma schema_event: "set_display_order rt \<Longrightarrow> schema_of_checkers (event_entries rt)"
  by (simp add: schema_of_checkers_def event_entries_display_order noCheck_def)

text \<open>The shape shared by the checkers of a list of objects.\<close>

lemma feo_list_of_objects:
  assumes "schema_of_checkers d"
  shows "format_error_only
     (seq (genericTypeCheck data data_name TList)
        (case data of
           JList items \<Rightarrow> for_loop (\<lambda>n item. genericCheck item d (label n) kind) m items
         | _ \<Rightarrow> Inl TypeError))"
proof (rule feo_seq)
  show "format_error_only (genericTypeCheck data data_name TList)"
    by (rule feo_genericTypeCheck)
next
  assume "genericTypeCheck data data_name TList = Inr ()"
  then obtain items where "data = JList items"
    by (auto simp: genericTypeCheck_Inr_iff isinstance_TList)
  then show "format_error_only
        (case data of
           JList items \<Rightarrow> for_loop (\<lambda>n item. genericCheck item d (label n) kind) m items
         | _ \<Rightarrow> Inl TypeError)"
    by (simp add: feo_for_loop feo_genericCheck assms)
qed

lemma feo_tracksCheck: "format_error_only (tracksCheck data_name data)"
  unfolding tracksCheck_def by (rule feo_list_of_objects) (rule schema_tracks)

lemma feo_jetsCheck: "format_error_only (jetsCheck data_name data)"
  unfolding jetsCheck_def by (rule feo_list_of_objects) (rule schema_jets)

lemma feo_clustersCheck: "format_error_only (clustersCheck data_name data)"
  unfolding clustersCheck_def by (rule feo_list_of_objects) (rule schema_clusters)

lemma feo_verticesCheck: "format_error_only (verticesCheck data_name data)"
  unfolding verticesCheck_def by (rule feo_list_of_objects) (rule schema_vertices)

lemma feo_missingECheck: "format_error_only (missingECheck data_name data)"
  unfolding missingECheck_def by (rule feo_list_of_objects) (rule schema_missingE)

lemma feo_compoundCheck: "format_error_only (compoundCheck data_name data)"
  by (simp add: compoundCheck_def)

lemma feo_hitsCheck_position: "format_error_only (hitsCheck_position data_name n position)"
  unfolding hitsCheck_position_def Let_def
proof (rule feo_seq)
  show "format_error_only (genericTypeCheck position data_name TList)"
    by (rule feo_genericTypeCheck)
next
  assume "genericTypeCheck position data_name TList = Inr ()"
  then obtain cs where "position = JList cs"
    by (auto simp: genericTypeCheck_Inr_iff isinstance_TList)
  then show "format_error_only
       (case position of
          JList cs \<Rightarrow>
            if length cs \<noteq> 3
            then Inl (PhoenixFormatError
              (''Expected Hits to be triplets of values. Not the case for ''
                 @ (data_name @ '', position '' @ fmt_d n)))
            else seq (floatCheck (cs ! 0) ((data_name @ '', position '' @ fmt_d n) @ '', coordinate x''))
                (seq (floatCheck (cs ! 1) ((data_name @ '', position '' @ fmt_d n) @ '', coordinate y''))
                     (floatCheck (cs ! 2) ((data_name @ '', position '' @ fmt_d n) @ '', coordinate z'')))
        | _ \<Rightarrow> Inl TypeError)"
    by (simp add: feo_seq feo_floatCheck)
qed

lemma feo_hitsCheck_hit: "format_error_only (hitsCheck_hit rt data_name n hit)"
  unfolding hitsCheck_hit_def
proof (rule feo_seq)
  show "format_error_only (genericCheck hit (hit_entries rt) (data_name @ '', hit '' @ fmt_d n) ''Hit'')"
    by (rule feo_genericCheck) (rule schema_hit)
next
  assume ok: "genericCheck hit (hit_entries rt) (data_name @ '', hit '' @ fmt_d n) ''Hit'' = Inr ()"
  then obtain kvs where hit: "hit = JDict kvs"
    using genericCheck_non_dict [of hit] by (cases hit) auto
  from ok [unfolded hit hit_genericCheck_Inr_iff]
  obtain ps where "map_of kvs ''pos'' = Some (JList ps)"
    by (auto split: option.splits json.splits)
  then show "format_error_only
      (case hit of
         JDict kvs \<Rightarrow>
          (let typ = (case map_of kvs ''type'' of Some t \<Rightarrow> t | None \<Rightarrow> JStr ''Point'') in
           case py_getitem hit ''pos'' of
             Inl e \<Rightarrow> Inl e
           | Inr p \<Rightarrow>
              (case py_len p of
                 Inl e \<Rightarrow> Inl e
               | Inr npos \<Rightarrow>
                  (let expNpos = (if typ = JStr ''Point'' then 3 else 6) in
                   if npos \<noteq> expNpos
                   then Inl (PhoenixFormatError
                     (''Expected '' @ fmt_d expNpos @ '' coordinates per Hit in '' @ data_name
                        @ ''. Found '' @ fmt_d npos @ '' in hit '' @ fmt_d n))
                   else Inr ())))
       | _ \<Rightarrow> Inl TypeError)"
    using hit by (simp add: Let_def)
qed

lemma feo_hitsCheck: "format_error_only (hitsCheck rt data_name data)"
  unfolding hitsCheck_def
proof (rule feo_seq)
  show "format_error_only (genericTypeCheck data data_name TList)"
    by (rule feo_genericTypeCheck)
next
  assume "genericTypeCheck data data_name TList = Inr ()"
  then obtain items where "data = JList items"
    by (auto simp: genericTypeCheck_Inr_iff isinstance_TList)
  then show "format_error_only
      (case data of
         JList items \<Rightarrow>
           (case items of
              [] \<Rightarrow> Inr ()
            | first # rest \<Rightarrow>
                if isinstance first TList
                then for_loop (hitsCheck_position data_name) 0 items
                else for_loop (hitsCheck_hit rt data_name) 0 items)
       | _ \<Rightarrow> Inl TypeError)"
    by (simp add: feo_for_loop feo_hitsCheck_position feo_hitsCheck_hit split: list.splits)
qed

lemma planar_genericCheck_cells:
  assumes "genericCheck (JDict kvs) planar_entries objName objType = Inr ()"
  shows "\<exists>cells. map_of kvs ''cells'' = Some (JList cells)"
  using assms
  by (auto simp: genericCheck_Inr_iff planar_entries_def tuple2_def genericCheck_entry_Inr_iff
      genericTypeCheck_Inr_iff isinstance_TList split: option.splits)

lemma feo_planarCaloCheck: "format_error_only (planarCaloCheck data_name data)"
  unfolding planarCaloCheck_def
proof (rule feo_seq)
  show "format_error_only (genericTypeCheck data data_name TDict)"
    by (rule feo_genericTypeCheck)
next
  assume "genericTypeCheck data data_name TDict = Inr ()"
  then obtain kvs where data: "data = JDict kvs"
    by (auto simp: genericTypeCheck_Inr_iff isinstance_TDict)
  show "format_error_only
     (seq (genericCheck data planar_entries data_name ''PlanarCaloCells'')
       (case py_getitem data ''cells'' of
          Inl e \<Rightarrow> Inl e
        | Inr (JList cells) \<Rightarrow>
            for_loop (\<lambda>n cell.
              genericCheck cell cell_entries (data_name @ '', cell '' @ fmt_d n) ''CaloCell'') 0 cells
        | Inr other \<Rightarrow> Inl TypeError))"
  proof (rule feo_seq)
    show "format_error_only (genericCheck data planar_entries data_name ''PlanarCaloCells'')"
      by (rule feo_genericCheck) (rule schema_planar)
  next
    assume "genericCheck data planar_entries data_name ''PlanarCaloCells'' = Inr ()"
    then obtain cells where "map_of kvs ''cells'' = Some (JList cells)"
      using planar_genericCheck_cells data by blast
    then show "format_error_only
       (case py_getitem data ''cells'' of
          Inl e \<Rightarrow> Inl e
        | Inr (JList cells) \<Rightarrow>
            for_loop (\<lambda>n cell.
              genericCheck cell cell_entries (data_name @ '', cell '' @ fmt_d n) ''CaloCell'') 0 cells
        | Inr other \<Rightarrow> Inl TypeError)"
      using data by (simp add: feo_for_loop feo_genericCheck schema_cell)
  qed
qed

lemma feo_KnownDataTypes:
  "(data_type, chk) \<in> set (KnownDataTypes rt) \<Longrightarrow> format_error_only (chk data_name data)"
  by (auto simp: KnownDataTypes_def feo_tracksCheck feo_jetsCheck feo_hitsCheck feo_clustersCheck
      feo_planarCaloCheck feo_verticesCheck feo_missingECheck feo_compoundCheck)

lemma feo_eventDataCheck: "format_error_only (eventDataCheck rt event_name data_type data)"
proof (cases "data_type \<in> set (map fst (KnownDataTypes rt))")
  case False
  then show ?thesis
    by (simp add: eventDataCheck_def)
next
  case True
  then obtain chk where chk: "map_of (KnownDataTypes rt) data_type = Some chk"
    by (metis map_of_eq_None_iff not_Some_eq set_map)
  then have mem: "(data_type, chk) \<in> set (KnownDataTypes rt)"
    by (rule map_of_SomeD)
  have "format_error_only (for_loop (\<lambda>n collection_name.
            case map_of (KnownDataTypes rt) data_type of
              None \<Rightarrow> Inl KeyError
            | Some chk \<Rightarrow>
               (case map_of data collection_name of
                  None \<Rightarrow> Inl KeyError
                | Some v \<Rightarrow>
                    chk (''event '' @ sq @ event_name @ sq @ '', collection '' @ sq
                           @ collection_name @ sq) v))
            0 (map fst data))"
  proof (rule feo_for_loop)
    fix n :: nat and collection_name
    assume "collection_name \<in> set (map fst data)"
    then obtain v where "map_of data collection_name = Some v"
      by (metis map_of_eq_None_iff not_Some_eq set_map)
    then show "format_error_only
        (case map_of (KnownDataTypes rt) data_type of
              None \<Rightarrow> Inl KeyError
            | Some chk \<Rightarrow>
               (case map_of data collection_name of
                  None \<Rightarrow> Inl KeyError
                | Some v \<Rightarrow>
                    chk (''event '' @ sq @ event_name @ sq @ '', collection '' @ sq
                           @ collection_name @ sq) v))"
      using chk feo_KnownDataTypes [OF mem] by simp
  qed
  then show ?thesis
    using True by (simp add: eventDataCheck_def)
qed

lemma feo_eventCheck_data:
  "data \<in> set (map fst kvs) \<Longrightarrow> format_error_only (eventCheck_data rt event_name kvs data)"
proof -
  assume "data \<in> set (map fst kvs)"
  then obtain v where "map_of kvs data = Some v"
    by (metis map_of_eq_None_iff not_Some_eq set_map)
  then show ?thesis
    by (cases v) (simp_all add: eventCheck_data_def feo_eventDataCheck)
qed

lemma feo_eventCheck:
  assumes "set_display_order rt"
  shows "format_error_only (eventCheck rt event_name event)"
  unfolding eventCheck_def
proof (rule feo_seq)
  show "format_error_only
     (genericCheck event (event_entries rt) (''top level event '' @ event_name) ''Event'')"
    by (rule feo_genericCheck) (rule schema_event [OF assms])
next
  assume "genericCheck event (event_entries rt) (''top level event '' @ event_name) ''Event'' = Inr ()"
  then obtain kvs where event: "event = JDict kvs"
    using genericCheck_non_dict [of event] by (cases event) auto
  have "format_error_only (for_loop (\<lambda>n. eventCheck_data rt event_name kvs) 0 (map fst kvs))"
    by (rule feo_for_loop) (rule feo_eventCheck_data)
  then show "format_error_only
      (case event of
         JDict kvs \<Rightarrow> for_loop (\<lambda>n. eventCheck_data rt event_name kvs) 0 (map fst kvs)
       | _ \<Rightarrow> Inl TypeError)"
    using event by simp
qed

lemma feo_check:
  assumes "set_display_order rt"
  shows "format_error_only (check rt topJson)"
proof (cases topJson)
  case (JDict events)
  have "format_error_only (for_loop (\<lambda>n eventKey.
           case map_of events eventKey of
             None \<Rightarrow> Inl KeyError
           | Some event \<Rightarrow> eventCheck rt eventKey event) 0 (map fst events))"
  proof (rule feo_for_loop)
    fix n :: nat and eventKey
    assume "eventKey \<in> set (map fst events)"
    then obtain event where "map_of events eventKey = Some event"
      by (metis map_of_eq_None_iff not_Some_eq set_map)
    then show "format_error_only
        (case map_of events eventKey of
             None \<Rightarrow> Inl KeyError
           | Some event \<Rightarrow> eventCheck rt eventKey event)"
      by (simp add: feo_eventCheck [OF assms])
  qed
  then show ?thesis
    using JDict by (simp add: check_def)
qed (simp_all add: check_def)

section \<open>The top-level driver\<close>

lemma check_items:
  "distinct (map fst events) \<Longrightarrow>
     check rt (JDict events) = for_loop (\<lambda>n (eventKey, event). eventCheck rt eventKey event) 0 events"
  using for_loop_dict_items [of events "eventCheck rt" 0] by (simp add: check_def)

lemma for_loop_first_failure_items:
  assumes "list_all (\<lambda>x. body x = Inr ()) pre" and "body x = Inl e"
  shows "for_loop (\<lambda>n. body) m (pre @ x # post) = Inl e"
proof -
  have "for_loop (\<lambda>n. body) m pre = Inr ()"
    using assms(1) by (simp add: for_loop_const_ok_iff)
  then show ?thesis
    using assms(2) by (simp add: for_loop_append)
qed

subsection \<open>Every checker reports the first violation\<close>

lemma first_of_append: "first_of (xs @ ys) = seq (first_of xs) (first_of ys)"
  by (cases xs) simp_all

lemma first_of_Inr_iff: "first_of xs = Inr () \<longleftrightarrow> xs = []"
  by (cases xs) simp_all

lemma case_sum_seq: "(case r of Inl e \<Rightarrow> Inl e | Inr u \<Rightarrow> k) = seq r k"
  by (simp add: seq_def)

lemma for_loop_first_of:
  assumes "\<And>n x. x \<in> set xs \<Longrightarrow> body n x = first_of (viol n x)"
  shows "for_loop body m xs = first_of (items_violations viol m xs)"
  using assms
proof (induction xs arbitrary: m)
  case Nil
  show ?case by simp
next
  case (Cons x xs)
  have head: "body m x = first_of (viol m x)"
    by (rule Cons.prems) simp
  have tail: "for_loop body (Suc m) xs = first_of (items_violations viol (Suc m) xs)"
    by (rule Cons.IH) (simp add: Cons.prems)
  show ?case
    by (simp add: case_sum_seq head tail first_of_append)
qed

lemma items_violations_const: "items_violations (\<lambda>n. g) m xs = concat (map g xs)"
  by (induction xs arbitrary: m) simp_all

lemma for_loop_first_of_concat:
  assumes "\<And>x. x \<in> set xs \<Longrightarrow> body x = first_of (viol x)"
  shows "for_loop (\<lambda>n. body) m xs = first_of (concat (map viol xs))"
  using for_loop_first_of [of xs "\<lambda>n. body" "\<lambda>n. viol" m] assms
  by (simp add: items_violations_const)

lemma genericTypeCheck_first_of:
  "genericTypeCheck j name typ = first_of (type_violations j name typ)"
  by (simp add: genericTypeCheck_def type_violations_def)

lemma floatCheck_first_of: "floatCheck j name = first_of (numeric_violations j name)"
  by (cases j) (simp_all add: floatCheck_def numeric_violations_def numeric_def isinstance_def)

lemma colorAttributeCheck_first_of:
  "colorAttributeCheck j name = first_of (color_violations j name)"
  by (simp add: colorAttributeCheck_def color_violations_def genericTypeCheck_first_of)

lemma hitTypeCheck_first_of: "hitTypeCheck rt j name = first_of (hit_type_violations rt j name)"
  by (auto simp: hitTypeCheck_def hit_type_violations_def)

lemma float_items_first_of:
  "for_loop (\<lambda>n item. floatCheck item (label n)) m items
     = first_of (items_violations (\<lambda>n item. numeric_violations item (label n)) m items)"
  by (rule for_loop_first_of) (rule floatCheck_first_of)

lemma floatListCheck_first_of_Some:
  "floatListCheck j name (int k) = first_of (float_list_violations (Some k) j name)"
  by (cases j)
    (simp_all add: floatListCheck_def float_list_violations_def genericTypeCheck_first_of
      type_violations_def isinstance_def float_items_first_of)

lemma floatListCheck_first_of_None:
  "floatListCheck j name (- 1) = first_of (float_list_violations None j name)"
  by (cases j)
    (simp_all add: floatListCheck_def float_list_violations_def genericTypeCheck_first_of
      type_violations_def isinstance_def float_items_first_of)

lemma posAttributeCheck_first_of:
  "posAttributeCheck positions name = first_of (pos_violations positions name)"
proof (cases positions)
  case (JList ps)
  have "for_loop (\<lambda>n pos. floatListCheck pos (label n) 3) 0 ps
      = first_of (items_violations (\<lambda>n pos. float_list_violations (Some 3) pos (label n)) 0 ps)"
    for label
    by (rule for_loop_first_of) (use floatListCheck_first_of_Some [of _ _ 3] in simp)
  then show ?thesis
    using JList
    by (simp add: posAttributeCheck_def pos_violations_def genericTypeCheck_first_of
        type_violations_def isinstance_def)
qed (simp_all add: posAttributeCheck_def pos_violations_def genericTypeCheck_first_of
    type_violations_def isinstance_def)

lemma genericCheck_entry_first_of:
  assumes "isOpt = VBool optional" and "\<And>v label. f v label = first_of (viol v label)"
  shows "genericCheck_entry kvs objName (key, isOpt, VFun f)
       = first_of (field_violations kvs objName (key, optional, viol))"
  using assms by (simp add: genericCheck_entry_def field_violations_def split: option.splits)

lemma generic_loop_first_of:
  assumes "schema_refines d fieldList"
  shows "for_loop (\<lambda>n. genericCheck_entry kvs objName) m d
       = first_of (concat (map (field_violations kvs objName) fieldList))"
  using assms unfolding schema_refines_def
proof (induction d fieldList arbitrary: m rule: list_all2_induct)
  case Nil
  show ?case by simp
next
  case (Cons entry d fld fieldList)
  obtain key isOpt checker where entry: "entry = (key, isOpt, checker)"
    by (cases entry)
  obtain name optional viol where fld: "fld = (name, optional, viol)"
    by (cases fld)
  from Cons.hyps(1) obtain f where "key = name" and "isOpt = VBool optional"
    and "checker = VFun f" and "\<And>v label. f v label = first_of (viol v label)"
    unfolding entry fld by (cases checker) auto
  then have head: "genericCheck_entry kvs objName entry
      = first_of (field_violations kvs objName fld)"
    unfolding entry fld using genericCheck_entry_first_of [of isOpt optional f viol kvs objName key]
    by simp
  show ?case
    by (simp add: case_sum_seq head Cons.IH first_of_append)
qed

lemma genericCheck_first_of:
  assumes "schema_refines d fieldList"
  shows "genericCheck j d objName objType = first_of (object_violations j fieldList objName objType)"
  by (cases j)
    (simp_all add: genericCheck_def object_violations_def generic_loop_first_of [OF assms])

lemma seq_cong_ok: "(r = Inr () \<Longrightarrow> k = k') \<Longrightarrow> seq r k = seq r k'"
  by (cases r) simp_all

lemmas floatListCheck_first_of_2 = floatListCheck_first_of_Some [of _ _ 2, simplified]
lemmas floatListCheck_first_of_4 = floatListCheck_first_of_Some [of _ _ 4, simplified]
lemmas floatListCheck_first_of_5 = floatListCheck_first_of_Some [of _ _ 5, simplified]

lemma tracks_refines: "schema_refines tracks_entries tracks_fields"
  by (simp add: schema_refines_def tracks_entries_def tracks_fields_def tuple2_def
      posAttributeCheck_first_of colorAttributeCheck_first_of floatListCheck_first_of_5
      floatCheck_first_of)

lemma jets_refines: "schema_refines jets_entries jets_fields"
  by (simp add: schema_refines_def jets_entries_def jets_fields_def tuple2_def
      colorAttributeCheck_first_of floatCheck_first_of)

lemma hit_refines: "schema_refines (hit_entries rt) (hit_fields rt)"
  by (simp add: schema_refines_def hit_entries_def hit_fields_def tuple2_def
      colorAttributeCheck_first_of hitTypeCheck_first_of floatListCheck_first_of_None)

lemma clusters_refines: "schema_refines clusters_entries clusters_fields"
  by (simp add: schema_refines_def clusters_entries_def clusters_fields_def tuple2_def
      floatCheck_first_of)

lemma planar_refines: "schema_refines planar_entries planar_fields"
  by (simp add: schema_refines_def planar_entries_def planar_fields_def tuple2_def
      floatListCheck_first_of_4 genericTypeCheck_first_of)

lemma cell_refines: "schema_refines cell_entries cell_fields"
  by (simp add: schema_refines_def cell_entries_def cell_fields_def tuple2_def
      floatListCheck_first_of_2 floatCheck_first_of colorAttributeCheck_first_of)

lemma vertices_refines: "schema_refines vertices_entries vertices_fields"
  by (simp add: schema_refines_def vertices_entries_def vertices_fields_def tuple2_def
      floatCheck_first_of colorAttributeCheck_first_of)

lemma missingE_refines: "schema_refines missingE_entries missingE_fields"
  by (simp add: schema_refines_def missingE_entries_def missingE_fields_def tuple2_def
      floatCheck_first_of colorAttributeCheck_first_of)

lemma event_refines: "set_display_order rt \<Longrightarrow> schema_refines (event_entries rt) event_fields"
  by (simp add: schema_refines_def event_entries_display_order event_fields_def noCheck_def)

lemma object_items_first_of:
  assumes "schema_refines d fieldList"
  shows "for_loop (\<lambda>n item. genericCheck item d (label n) kind) m items
       = first_of (items_violations (\<lambda>n item. object_violations item fieldList (label n) kind) m items)"
  by (rule for_loop_first_of) (rule genericCheck_first_of [OF assms])

lemma tracksCheck_first_of:
  "tracksCheck data_name data
     = first_of (item_list_violations tracks_fields ''Track'' ''track'' 1 data_name data)"
  by (cases data)
    (simp_all add: tracksCheck_def item_list_violations_def genericTypeCheck_first_of
      type_violations_def isinstance_def object_items_first_of [OF tracks_refines])

lemma jetsCheck_first_of:
  "jetsCheck data_name data
     = first_of (item_list_violations jets_fields ''Jet'' ''jet'' 1 data_name data)"
  by (cases data)
    (simp_all add: jetsCheck_def item_list_violations_def genericTypeCheck_first_of
      type_violations_def isinstance_def object_items_first_of [OF jets_refines])

lemma clustersCheck_first_of:
  "clustersCheck data_name data
     = first_of (item_list_violations clusters_fields ''CaloCluster/CaloCell'' ''entry'' 0
         data_name data)"
  by (cases data)
    (simp_all add: clustersCheck_def item_list_violations_def genericTypeCheck_first_of
      type_violations_def isinstance_def object_items_first_of [OF clusters_refines])

lemma verticesCheck_first_of:
  "verticesCheck data_name data
     = first_of (item_list_violations vertices_fields ''Vertex'' ''vertex'' 0 data_name data)"
  by (cases data)
    (simp_all add: verticesCheck_def item_list_violations_def genericTypeCheck_first_of
      type_violations_def isinstance_def object_items_first_of [OF vertices_refines])

lemma missingECheck_first_of:
  "missingECheck data_name data
     = first_of (item_list_violations missingE_fields ''MissingEnergy'' ''object'' 0
         data_name data)"
  by (cases data)
    (simp_all add: missingECheck_def item_list_violations_def genericTypeCheck_first_of
      type_violations_def isinstance_def object_items_first_of [OF missingE_refines])

lemma hitsCheck_position_first_of:
  "hitsCheck_position data_name n position = first_of (raw_hit_violations data_name n position)"
proof (cases position)
  case (JList cs)
  show ?thesis
  proof (cases "length cs = 3")
    case True
    then obtain x y z where "cs = [x, y, z]"
      by (metis (no_types, opaque_lifting) length_0_conv length_Suc_conv numeral_3_eq_3)
    then show ?thesis
      using JList
      by (simp add: hitsCheck_position_def raw_hit_violations_def Let_def
          genericTypeCheck_first_of type_violations_def isinstance_def floatCheck_first_of
          first_of_append)
  next
    case False
    then have "(case cs of [x, y, z] \<Rightarrow> f x y z | _ \<Rightarrow> dflt) = dflt" for f and dflt :: "string list"
      by (auto split: list.splits)
    then show ?thesis
      using JList False
      by (simp add: hitsCheck_position_def raw_hit_violations_def Let_def
          genericTypeCheck_first_of type_violations_def isinstance_def)
  qed
qed (simp_all add: hitsCheck_position_def raw_hit_violations_def Let_def
    genericTypeCheck_first_of type_violations_def isinstance_def)

lemma hitsCheck_hit_first_of:
  "hitsCheck_hit rt data_name n hit = first_of (typed_hit_violations rt data_name n hit)"
proof -
  let ?label = "data_name @ '', hit '' @ fmt_d n"
  have generic: "genericCheck hit (hit_entries rt) ?label ''Hit''
      = first_of (object_violations hit (hit_fields rt) ?label ''Hit'')"
    by (rule genericCheck_first_of) (rule hit_refines)
  have rest: "(case hit of
         JDict kvs \<Rightarrow>
          (let typ = (case map_of kvs ''type'' of Some t \<Rightarrow> t | None \<Rightarrow> JStr ''Point'') in
           case py_getitem hit ''pos'' of
             Inl e \<Rightarrow> Inl e
           | Inr p \<Rightarrow>
              (case py_len p of
                 Inl e \<Rightarrow> Inl e
               | Inr npos \<Rightarrow>
                  (let expNpos = (if typ = JStr ''Point'' then 3 else 6) in
                   if npos \<noteq> expNpos
                   then Inl (PhoenixFormatError
                     (''Expected '' @ fmt_d expNpos @ '' coordinates per Hit in '' @ data_name
                        @ ''. Found '' @ fmt_d npos @ '' in hit '' @ fmt_d n))
                   else Inr ())))
       | _ \<Rightarrow> Inl TypeError)
     = first_of (case hit of JDict kvs \<Rightarrow> hit_count_violations data_name n kvs | _ \<Rightarrow> [])"
    if ok: "genericCheck hit (hit_entries rt) ?label ''Hit'' = Inr ()"
  proof -
    obtain kvs where hit: "hit = JDict kvs"
      using ok genericCheck_non_dict [of hit] by (cases hit) auto
    show ?thesis
      using ok [unfolded hit hit_genericCheck_Inr_iff]
      by (auto simp: hit hit_count_violations_def Let_def split: option.splits json.splits)
  qed
  show ?thesis
    unfolding hitsCheck_hit_def typed_hit_violations_def first_of_append generic [symmetric]
    by (rule seq_cong_ok) (rule rest)
qed

lemma hitsCheck_first_of:
  "hitsCheck rt data_name data = first_of (hits_violations rt data_name data)"
proof (cases data)
  case (JList items)
  have raw: "for_loop (hitsCheck_position data_name) 0 items
      = first_of (items_violations (raw_hit_violations data_name) 0 items)"
    by (rule for_loop_first_of) (rule hitsCheck_position_first_of)
  have typed: "for_loop (hitsCheck_hit rt data_name) 0 items
      = first_of (items_violations (typed_hit_violations rt data_name) 0 items)"
    by (rule for_loop_first_of) (rule hitsCheck_hit_first_of)
  show ?thesis
  proof (cases items)
    case Nil
    then show ?thesis
      using JList
      by (simp add: hitsCheck_def hits_violations_def genericTypeCheck_def isinstance_def)
  next
    case (Cons first rest)
    show ?thesis
    proof (cases "type_of first = TList")
      case True
      then show ?thesis
        using JList Cons raw
        by (simp add: hitsCheck_def hits_violations_def genericTypeCheck_def isinstance_def)
    next
      case False
      then show ?thesis
        using JList Cons typed
        by (simp add: hitsCheck_def hits_violations_def genericTypeCheck_def isinstance_def)
    qed
  qed
qed (simp_all add: hitsCheck_def hits_violations_def genericTypeCheck_first_of
    type_violations_def isinstance_def)

lemma planarCaloCheck_first_of:
  "planarCaloCheck data_name data = first_of (planar_violations data_name data)"
proof (cases data)
  case (JDict kvs)
  have generic: "genericCheck data planar_entries data_name ''PlanarCaloCells''
      = first_of (object_violations data planar_fields data_name ''PlanarCaloCells'')"
    by (rule genericCheck_first_of) (rule planar_refines)
  have rest: "(case py_getitem data ''cells'' of
          Inl e \<Rightarrow> Inl e
        | Inr (JList cells) \<Rightarrow>
            for_loop (\<lambda>n cell.
              genericCheck cell cell_entries (data_name @ '', cell '' @ fmt_d n) ''CaloCell'') 0 cells
        | Inr other \<Rightarrow> Inl TypeError)
      = first_of (case map_of kvs ''cells'' of
              Some (JList cells) \<Rightarrow>
                items_violations
                  (\<lambda>n cell. object_violations cell cell_fields
                     (data_name @ '', cell '' @ fmt_d n) ''CaloCell'') 0 cells
            | _ \<Rightarrow> [])"
    if ok: "genericCheck data planar_entries data_name ''PlanarCaloCells'' = Inr ()"
  proof -
    obtain cells where "map_of kvs ''cells'' = Some (JList cells)"
      using planar_genericCheck_cells ok JDict by blast
    then show ?thesis
      using JDict object_items_first_of [OF cell_refines, of "\<lambda>n. data_name @ '', cell '' @ fmt_d n"]
      by simp
  qed
  have "seq (genericCheck data planar_entries data_name ''PlanarCaloCells'')
       (case py_getitem data ''cells'' of
          Inl e \<Rightarrow> Inl e
        | Inr (JList cells) \<Rightarrow>
            for_loop (\<lambda>n cell.
              genericCheck cell cell_entries (data_name @ '', cell '' @ fmt_d n) ''CaloCell'') 0 cells
        | Inr other \<Rightarrow> Inl TypeError)
     = first_of (object_violations data planar_fields data_name ''PlanarCaloCells''
         @ (case map_of kvs ''cells'' of
              Some (JList cells) \<Rightarrow>
                items_violations
                  (\<lambda>n cell. object_violations cell cell_fields
                     (data_name @ '', cell '' @ fmt_d n) ''CaloCell'') 0 cells
            | _ \<Rightarrow> []))"
    unfolding first_of_append generic [symmetric]
    by (rule seq_cong_ok) (rule rest)
  then show ?thesis
    using JDict
    by (simp add: planarCaloCheck_def planar_violations_def genericTypeCheck_def isinstance_def)
qed (simp_all add: planarCaloCheck_def planar_violations_def genericTypeCheck_first_of
    type_violations_def isinstance_def)

lemma compoundCheck_first_of: "compoundCheck data_name data = first_of []"
  by (simp add: compoundCheck_def)

lemma registry_lookup:
  "(case map_of (KnownDataTypes rt) data_type of
      None \<Rightarrow> map_of (registry_violations rt) data_type = None
    | Some chk \<Rightarrow>
        (\<exists>viol. map_of (registry_violations rt) data_type = Some viol
           \<and> (\<forall>label data. chk label data = first_of (viol label data))))"
  by (simp add: KnownDataTypes_def registry_violations_def tracksCheck_first_of
      jetsCheck_first_of hitsCheck_first_of clustersCheck_first_of planarCaloCheck_first_of
      verticesCheck_first_of missingECheck_first_of compoundCheck_def)

lemma eventDataCheck_first_of:
  assumes "distinct (map fst data)"
  shows "eventDataCheck rt event_name data_type data
       = first_of (collection_violations rt event_name data_type data)"
proof (cases "map_of (KnownDataTypes rt) data_type")
  case None
  then have unknown: "data_type \<notin> set (map fst (KnownDataTypes rt))"
    by (simp add: map_of_eq_None_iff)
  have "map_of (registry_violations rt) data_type = None"
    using registry_lookup [of rt data_type] None by simp
  then show ?thesis
    using unknown by (simp add: eventDataCheck_def collection_violations_def)
next
  case (Some chk)
  then obtain viol where viol: "map_of (registry_violations rt) data_type = Some viol"
    and same: "\<And>label data. chk label data = first_of (viol label data)"
    using registry_lookup [of rt data_type] by auto
  have "eventDataCheck rt event_name data_type data
      = for_loop (\<lambda>n (collection_name, v).
           chk (''event '' @ sq @ event_name @ sq @ '', collection '' @ sq @ collection_name @ sq) v)
          0 data"
    using Some assms by (rule eventDataCheck_known)
  also have "\<dots> = first_of (concat (map (\<lambda>(collection_name, v).
           viol (''event '' @ sq @ event_name @ sq @ '', collection '' @ sq @ collection_name @ sq) v)
          data))"
    by (rule for_loop_first_of_concat) (simp add: same case_prod_unfold)
  finally show ?thesis
    using viol by (simp add: collection_violations_def)
qed

lemma eventCheck_first_of:
  assumes "set_display_order rt" and "proper_event event"
  shows "eventCheck rt event_name event = first_of (event_violations rt event_name event)"
proof (cases event)
  case (JDict kvs)
  have keys: "distinct (map fst kvs)"
    and inner: "\<And>key d. (key, JDict d) \<in> set kvs \<Longrightarrow> distinct (map fst d)"
    using assms(2) JDict by (auto simp: proper_event_def list_all_iff)
  have generic: "genericCheck (JDict kvs) (event_entries rt) (''top level event '' @ event_name) ''Event''
      = first_of (object_violations (JDict kvs) event_fields (''top level event '' @ event_name)
          ''Event'')"
    by (rule genericCheck_first_of) (rule event_refines [OF assms(1)])
  have "for_loop (\<lambda>n. eventCheck_data rt event_name kvs) 0 (map fst kvs)
      = for_loop (\<lambda>n k. case map_of kvs k of None \<Rightarrow> Inl KeyError
           | Some v \<Rightarrow> (case v of JDict d \<Rightarrow> eventDataCheck rt event_name k d | _ \<Rightarrow> Inr ()))
          0 (map fst kvs)"
    by (rule for_loop_cong_body) (simp add: eventCheck_data_def split: option.splits json.splits)
  also have "\<dots> = for_loop (\<lambda>n (k, v). case v of JDict d \<Rightarrow> eventDataCheck rt event_name k d
           | _ \<Rightarrow> Inr ()) 0 kvs"
    by (rule for_loop_dict_items) (rule keys)
  also have "\<dots> = first_of (concat (map (\<lambda>(key, v).
             case v of JDict d \<Rightarrow> collection_violations rt event_name key d | _ \<Rightarrow> []) kvs))"
  proof (rule for_loop_first_of_concat)
    fix x
    assume x: "x \<in> set kvs"
    obtain key v where kv: "x = (key, v)"
      by (cases x)
    show "(case x of (k, v) \<Rightarrow> case v of JDict d \<Rightarrow> eventDataCheck rt event_name k d | _ \<Rightarrow> Inr ())
        = first_of (case x of (key, v) \<Rightarrow>
             case v of JDict d \<Rightarrow> collection_violations rt event_name key d | _ \<Rightarrow> [])"
      using x inner [of key] unfolding kv
      by (cases v) (simp_all add: eventDataCheck_first_of)
  qed
  finally show ?thesis
    using JDict generic by (simp add: eventCheck_def event_violations_def first_of_append)
qed (simp_all add: eventCheck_def event_violations_def genericCheck_def object_violations_def)

lemma check_first_of:
  assumes "set_display_order rt" and "proper_document topJson"
  shows "check rt topJson = first_of (document_violations rt topJson)"
proof (cases topJson)
  case (JDict events)
  have keys: "distinct (map fst events)"
    and inner: "\<And>k ev. (k, ev) \<in> set events \<Longrightarrow> proper_event ev"
    using assms(2) JDict by (auto simp: proper_document_def list_all_iff)
  have "check rt (JDict events)
      = for_loop (\<lambda>n (eventKey, event). eventCheck rt eventKey event) 0 events"
    by (rule check_items) (rule keys)
  also have "\<dots> = first_of (concat (map (\<lambda>(eventName, eventValue).
       event_violations rt eventName eventValue) events))"
  proof (rule for_loop_first_of_concat)
    fix x
    assume x: "x \<in> set events"
    obtain k ev where kv: "x = (k, ev)"
      by (cases x)
    show "(case x of (eventKey, event) \<Rightarrow> eventCheck rt eventKey event)
        = first_of (case x of (eventName, eventValue) \<Rightarrow> event_violations rt eventName eventValue)"
      using x inner [of k ev] unfolding kv
      by (simp add: eventCheck_first_of [OF assms(1)])
  qed
  finally show ?thesis
    using JDict by (simp add: document_violations_def)
qed (simp_all add: check_def document_violations_def)

lemma fmt_d_digits:
  "fmt_d 0 = ''0''" "fmt_d (Suc 0) = ''1''" "fmt_d (Suc (Suc (Suc 0))) = ''3''" "fmt_d 4 = ''4''"
  by (simp_all add: fmt_d.simps digit_def)

text \<open>
  C3. On an interpreter that unpacks the set display \<^verbatim>\<open>{False, noCheck}\<close> in the
  order it is written, \<^verbatim>\<open>check\<close> on any decoded value either returns or raises
  one \<^verbatim>\<open>PhoenixFormatError\<close>: no \<^verbatim>\<open>TypeError\<close>, \<^verbatim>\<open>KeyError\<close> or
  \<^verbatim>\<open>IndexError\<close> of the operations it uses escapes. On a proper document the
  outcome is the first of all the violations of the document in depth-first,
  left-to-right order, and a normal return when there is none: no checker at any
  level, down to the coordinates of a position, suppresses a violation or reports
  a later one before an earlier one. In particular, when the events before an event
  pass and that event fails with an error, \<^verbatim>\<open>check\<close> fails with that error,
  whatever follows; and when the mandatory keys of an event are there, the
  collections before a collection pass and that collection fails with an error,
  \<^verbatim>\<open>eventCheck\<close> fails with that error.
\<close>

theorem check_raises_only_format_error:
  assumes "set_display_order rt"
  shows "(check rt topJson = Inr () \<or> (\<exists>m. check rt topJson = Inl (PhoenixFormatError m)))
       \<and> (proper_document topJson \<longrightarrow>
            check rt topJson = first_of (document_violations rt topJson))
       \<and> (distinct (map fst (pre @ (eventKey, event) # post))
            \<and> list_all (\<lambda>(k, ev). eventCheck rt k ev = Inr ()) pre
            \<and> eventCheck rt eventKey event = Inl e
          \<longrightarrow> check rt (JDict (pre @ (eventKey, event) # post)) = Inl e)
       \<and> (distinct (map fst kvs)
            \<and> genericCheck (JDict kvs) (event_entries rt) (''top level event '' @ event_name) ''Event''
                = Inr ()
            \<and> collections_of kvs = before @ (data_type, d) # after
            \<and> list_all (\<lambda>(t, c). eventDataCheck rt event_name t c = Inr ()) before
            \<and> eventDataCheck rt event_name data_type d = Inl e
          \<longrightarrow> eventCheck rt event_name (JDict kvs) = Inl e)"
proof (intro conjI impI)
  show "check rt topJson = Inr () \<or> (\<exists>m. check rt topJson = Inl (PhoenixFormatError m))"
    using feo_check [OF assms, of topJson] by (simp add: feo_iff)
next
  assume "proper_document topJson"
  with assms show "check rt topJson = first_of (document_violations rt topJson)"
    by (rule check_first_of)
next
  assume a: "distinct (map fst (pre @ (eventKey, event) # post))
            \<and> list_all (\<lambda>(k, ev). eventCheck rt k ev = Inr ()) pre
            \<and> eventCheck rt eventKey event = Inl e"
  then have "check rt (JDict (pre @ (eventKey, event) # post))
      = for_loop (\<lambda>n (k, ev). eventCheck rt k ev) 0 (pre @ (eventKey, event) # post)"
    by (simp only: check_items)
  also have "\<dots> = Inl e"
    using a by (intro for_loop_first_failure_items) (simp_all add: case_prod_unfold)
  finally show "check rt (JDict (pre @ (eventKey, event) # post)) = Inl e" .
next
  assume a: "distinct (map fst kvs)
            \<and> genericCheck (JDict kvs) (event_entries rt) (''top level event '' @ event_name) ''Event''
                = Inr ()
            \<and> collections_of kvs = before @ (data_type, d) # after
            \<and> list_all (\<lambda>(t, c). eventDataCheck rt event_name t c = Inr ()) before
            \<and> eventDataCheck rt event_name data_type d = Inl e"
  then have "eventCheck rt event_name (JDict kvs)
      = for_loop (\<lambda>n (t, c). eventDataCheck rt event_name t c) 0 (before @ (data_type, d) # after)"
    by (simp add: eventCheck_collections)
  also have "\<dots> = Inl e"
    using a by (intro for_loop_first_failure_items) (simp_all add: case_prod_unfold)
  finally show "eventCheck rt event_name (JDict kvs) = Inl e" .
qed

theorem check_raises_only_format_error_witness:
  "check \<lparr>set_display_order = True, py_str = (\<lambda>j. [])\<rparr>
     (JDict [(''e'', JDict [(''event number'', JInt 1), (''run number'', JInt 2),
        (''CaloClusters'', JDict [(''c'',
           JList [JDict [(''energy'', JInt 1), (''phi'', JStr ''x''), (''eta'', JNull)], JInt 3])]),
        (''PlanarCaloCells'', JDict [(''p'',
           JDict [(''plane'', JList [JInt 1, JInt 2, JInt 3]), (''cells'', JList [])])])])])
   = Inl (PhoenixFormatError
       (''Expected the event '' @ sq @ ''e'' @ sq @ '', collection '' @ sq @ ''c'' @ sq
          @ '', entry 0, attribute '' @ sq @ ''phi'' @ sq @ '' to be of type float or int, found str''))
   \<and> document_violations \<lparr>set_display_order = True, py_str = (\<lambda>j. [])\<rparr>
     (JDict [(''e'', JDict [(''event number'', JInt 1), (''run number'', JInt 2),
        (''CaloClusters'', JDict [(''c'',
           JList [JDict [(''energy'', JInt 1), (''phi'', JStr ''x''), (''eta'', JNull)], JInt 3])]),
        (''PlanarCaloCells'', JDict [(''p'',
           JDict [(''plane'', JList [JInt 1, JInt 2, JInt 3]), (''cells'', JList [])])])])])
   = [''Expected the event '' @ sq @ ''e'' @ sq @ '', collection '' @ sq @ ''c'' @ sq
          @ '', entry 0, attribute '' @ sq @ ''phi'' @ sq @ '' to be of type float or int, found str'',
      ''Expected the event '' @ sq @ ''e'' @ sq @ '', collection '' @ sq @ ''c'' @ sq
          @ '', entry 0, attribute '' @ sq @ ''eta'' @ sq
          @ '' to be of type float or int, found NoneType'',
      ''Expected CaloCluster/CaloCell to be dictionaries. Not the case for event '' @ sq @ ''e''
          @ sq @ '', collection '' @ sq @ ''c'' @ sq @ '', entry 1'',
      ''Expected 4 entries in event '' @ sq @ ''e'' @ sq @ '', collection '' @ sq @ ''p'' @ sq
          @ '', attribute '' @ sq @ ''plane'' @ sq @ '', got 3'']
   \<and> check \<lparr>set_display_order = True, py_str = (\<lambda>j. [])\<rparr>
     (JDict [(''a'', JDict [(''event number'', JInt 1), (''run number'', JInt 2)]),
             (''b'', JList []),
             (''c'', JDict [])])
   = Inl (PhoenixFormatError ''Expected Event to be dictionaries. Not the case for top level event b'')"
proof -
  let ?rt = "\<lparr>set_display_order = True, py_str = (\<lambda>j. [])\<rparr>"
  let ?doc = "JDict [(''e'', JDict [(''event number'', JInt 1), (''run number'', JInt 2),
        (''CaloClusters'', JDict [(''c'',
           JList [JDict [(''energy'', JInt 1), (''phi'', JStr ''x''), (''eta'', JNull)], JInt 3])]),
        (''PlanarCaloCells'', JDict [(''p'',
           JDict [(''plane'', JList [JInt 1, JInt 2, JInt 3]), (''cells'', JList [])])])])]"
  have ord: "set_display_order ?rt"
    by simp
  have proper: "proper_document ?doc"
    by (simp add: proper_document_def proper_event_def)
  have all: "document_violations ?rt ?doc
   = [''Expected the event '' @ sq @ ''e'' @ sq @ '', collection '' @ sq @ ''c'' @ sq
          @ '', entry 0, attribute '' @ sq @ ''phi'' @ sq @ '' to be of type float or int, found str'',
      ''Expected the event '' @ sq @ ''e'' @ sq @ '', collection '' @ sq @ ''c'' @ sq
          @ '', entry 0, attribute '' @ sq @ ''eta'' @ sq
          @ '' to be of type float or int, found NoneType'',
      ''Expected CaloCluster/CaloCell to be dictionaries. Not the case for event '' @ sq @ ''e''
          @ sq @ '', collection '' @ sq @ ''c'' @ sq @ '', entry 1'',
      ''Expected 4 entries in event '' @ sq @ ''e'' @ sq @ '', collection '' @ sq @ ''p'' @ sq
          @ '', attribute '' @ sq @ ''plane'' @ sq @ '', got 3'']"
    by (simp add: document_violations_def event_violations_def
      object_violations_def event_fields_def field_violations_def collection_violations_def
      registry_violations_def item_list_violations_def clusters_fields_def planar_violations_def
      planar_fields_def float_list_violations_def numeric_violations_def numeric_def
      type_violations_def isinstance_def fmt_d_digits)
  have first: "check ?rt ?doc = first_of (document_violations ?rt ?doc)"
    using check_raises_only_format_error [OF ord, THEN conjunct2, THEN conjunct1] proper by blast
  have "eventCheck ?rt ''a'' (JDict [(''event number'', JInt 1), (''run number'', JInt 2)]) = Inr ()"
    by (simp add: eventCheck_def genericCheck_def event_entries_def set2_def genericCheck_entry_def
      noCheck_def eventCheck_data_def)
  moreover have "eventCheck ?rt ''b'' (JList [])
      = Inl (PhoenixFormatError ''Expected Event to be dictionaries. Not the case for top level event b'')"
    by (simp add: eventCheck_def genericCheck_def)
  ultimately have second: "check ?rt
     (JDict ([(''a'', JDict [(''event number'', JInt 1), (''run number'', JInt 2)])]
        @ (''b'', JList []) # [(''c'', JDict [])]))
   = Inl (PhoenixFormatError ''Expected Event to be dictionaries. Not the case for top level event b'')"
    by (intro check_raises_only_format_error [OF ord, THEN conjunct2, THEN conjunct2, THEN conjunct1, rule_format]) simp
  show ?thesis
    using first second by (simp add: all)
qed

text \<open>
  Under the other iteration order a \<^verbatim>\<open>TypeError\<close> escapes \<^verbatim>\<open>check\<close> as soon as
  an event has the key \<^verbatim>\<open>event number\<close>.
\<close>

lemma check_reversed_order:
  "\<not> set_display_order rt \<Longrightarrow>
     check rt (JDict [(eventKey, JDict [(''event number'', v)])]) = Inl TypeError"
  by (simp add: check_def eventCheck_reversed_order)

section \<open>Tracks\<close>

lemma fmt_d_3: "fmt_d 3 = ''3''"
  by (simp add: fmt_d.simps digit_def)

lemma floatListCheck_3_Inr_iff: "floatListCheck j name 3 = Inr () \<longleftrightarrow> raw_triplet j"
  by (cases j) (auto simp: floatListCheck_Inr_iff raw_triplet_def)

lemma floatListCheck_3_mismatch:
  "length cs \<noteq> 3 \<Longrightarrow>
     floatListCheck (JList cs) name 3
       = Inl (PhoenixFormatError (''Expected 3 entries in '' @ name @ '', got '' @ fmt_d (length cs)))"
  by (simp add: floatListCheck_def genericTypeCheck_def isinstance_def fmt_d_3)

lemma posAttributeCheck_Inr_iff:
  "posAttributeCheck positions name = Inr () \<longleftrightarrow>
     (case positions of JList ps \<Rightarrow> list_all raw_triplet ps | _ \<Rightarrow> False)"
proof (cases positions)
  case (JList ps)
  have "for_loop (\<lambda>n pos. floatListCheck pos (name @ '', item '' @ fmt_d n) 3) 0 ps = Inr ()
      \<longleftrightarrow> list_all raw_triplet ps"
    by (rule for_loop_ok_iff_list_all) (rule floatListCheck_3_Inr_iff)
  then show ?thesis
    using JList by (simp add: posAttributeCheck_def genericTypeCheck_def isinstance_def)
qed (simp_all add: posAttributeCheck_def genericTypeCheck_def isinstance_def)

lemma posAttributeCheck_mismatch:
  assumes "list_all raw_triplet good" and "length cs \<noteq> 3"
  shows "posAttributeCheck (JList (good @ JList cs # rest)) name
       = Inl (PhoenixFormatError (''Expected 3 entries in '' @ name @ '', item ''
            @ fmt_d (length good) @ '', got '' @ fmt_d (length cs)))"
proof -
  have "for_loop (\<lambda>n pos. floatListCheck pos (name @ '', item '' @ fmt_d n) 3) 0 good = Inr ()
      \<longleftrightarrow> list_all raw_triplet good"
    by (rule for_loop_ok_iff_list_all) (rule floatListCheck_3_Inr_iff)
  then have "for_loop (\<lambda>n pos. floatListCheck pos (name @ '', item '' @ fmt_d n) 3) 0 good = Inr ()"
    using assms(1) by simp
  then have "for_loop (\<lambda>n pos. floatListCheck pos (name @ '', item '' @ fmt_d n) 3) 0
       (good @ JList cs # rest)
     = Inl (PhoenixFormatError (''Expected 3 entries in '' @ (name @ '', item ''
            @ fmt_d (length good)) @ '', got '' @ fmt_d (length cs)))"
    by (rule for_loop_first_failure) (simp add: floatListCheck_3_mismatch [OF assms(2)])
  then show ?thesis
    by (simp add: posAttributeCheck_def genericTypeCheck_def isinstance_def)
qed

lemma tracks_genericCheck_pos_ok:
  assumes "genericCheck item tracks_entries objName objType = Inr ()"
  shows "track_pos_ok item"
proof -
  obtain kvs where item: "item = JDict kvs"
    using assms genericCheck_non_dict [of item] by (cases item) auto
  have "genericCheck_entry kvs objName (''pos'', VBool False, VFun posAttributeCheck) = Inr ()"
    using assms unfolding item genericCheck_Inr_iff
    by (simp add: tracks_entries_def tuple2_def)
  then show ?thesis
    unfolding item
    by (auto simp: genericCheck_entry_Inr_iff posAttributeCheck_Inr_iff track_pos_ok_def
        split: option.splits json.splits)
qed

lemma tracksCheck_loop:
  "tracksCheck data_name (JList items)
     = for_loop (\<lambda>n track.
         genericCheck track tracks_entries (data_name @ '', track '' @ fmt_d n) ''Track'') 1 items"
  by (simp add: tracksCheck_def genericTypeCheck_def isinstance_def)

lemma tracksCheck_Inr_pos_ok:
  assumes "tracksCheck data_name (JList items) = Inr ()"
  shows "list_all track_pos_ok items"
proof -
  have "\<forall>i < length items.
      genericCheck (items ! i) tracks_entries (data_name @ '', track '' @ fmt_d (1 + i)) ''Track''
        = Inr ()"
    using assms unfolding tracksCheck_loop for_loop_ok_iff by simp
  then have "\<forall>i < length items. track_pos_ok (items ! i)"
    using tracks_genericCheck_pos_ok by blast
  then show ?thesis
    by (simp add: list_all_length)
qed

lemma tracks_genericCheck_missing_pos:
  "map_of kvs ''pos'' = None \<Longrightarrow>
     genericCheck (JDict kvs) tracks_entries objName objType
       = Inl (PhoenixFormatError (''Expected a '' @ sq @ ''pos'' @ sq @ '' attribute in '' @ objName))"
  by (simp add: genericCheck_def tracks_entries_def tuple2_def genericCheck_entry_def)

lemma tracks_genericCheck_mismatch:
  assumes "map_of kvs ''pos'' = Some (JList (good @ JList cs # rest))"
    and "list_all raw_triplet good" and "length cs \<noteq> 3"
  shows "genericCheck (JDict kvs) tracks_entries objName objType
       = Inl (PhoenixFormatError (''Expected 3 entries in '' @ objName @ '', attribute '' @ sq
            @ ''pos'' @ sq @ '', item '' @ fmt_d (length good) @ '', got '' @ fmt_d (length cs)))"
  using assms(1) posAttributeCheck_mismatch [OF assms(2,3), of rest]
  by (simp add: genericCheck_def tracks_entries_def tuple2_def genericCheck_entry_def)

text \<open>
  C6, as amended. A Tracks list with an item that has no \<^verbatim>\<open>pos\<close>, or whose
  \<^verbatim>\<open>pos\<close> is not a list of lists of three numeric values, fails with a
  \<^verbatim>\<open>PhoenixFormatError\<close>. When the items before an item pass and the first
  entry of its \<^verbatim>\<open>pos\<close> that is not a triplet is a list of another length, the
  error is \<^verbatim>\<open>Expected 3 entries in NAME, track N, attribute 'pos', item I, got L\<close>.
  When the items before an item pass and it has no \<^verbatim>\<open>pos\<close>, the error is
  \<^verbatim>\<open>Expected a 'pos' attribute in NAME, track N\<close>.
\<close>

theorem tracksCheck_bad_pos:
  "(item \<in> set items \<and> \<not> track_pos_ok item \<longrightarrow>
      (\<exists>m. tracksCheck data_name (JList items) = Inl (PhoenixFormatError m)))
   \<and> (tracksCheck data_name (JList pre) = Inr ()
        \<and> map_of kvs ''pos'' = Some (JList (good @ JList cs # rest))
        \<and> list_all raw_triplet good \<and> length cs \<noteq> 3 \<longrightarrow>
      tracksCheck data_name (JList (pre @ JDict kvs # post))
        = Inl (PhoenixFormatError (''Expected 3 entries in '' @ data_name @ '', track ''
            @ fmt_d (Suc (length pre)) @ '', attribute '' @ sq @ ''pos'' @ sq @ '', item ''
            @ fmt_d (length good) @ '', got '' @ fmt_d (length cs))))
   \<and> (tracksCheck data_name (JList pre) = Inr () \<and> map_of kvs ''pos'' = None \<longrightarrow>
      tracksCheck data_name (JList (pre @ JDict kvs # post))
        = Inl (PhoenixFormatError (''Expected a '' @ sq @ ''pos'' @ sq @ '' attribute in ''
            @ data_name @ '', track '' @ fmt_d (Suc (length pre)))))"
proof (intro conjI impI)
  assume a: "item \<in> set items \<and> \<not> track_pos_ok item"
  then have "tracksCheck data_name (JList items) \<noteq> Inr ()"
    using tracksCheck_Inr_pos_ok [of data_name items] by (auto simp: list_all_iff)
  then show "\<exists>m. tracksCheck data_name (JList items) = Inl (PhoenixFormatError m)"
    using feo_tracksCheck [of data_name "JList items"] by (simp add: feo_iff)
next
  assume a: "tracksCheck data_name (JList pre) = Inr ()
        \<and> map_of kvs ''pos'' = Some (JList (good @ JList cs # rest))
        \<and> list_all raw_triplet good \<and> length cs \<noteq> 3"
  then have pre: "for_loop (\<lambda>n track.
         genericCheck track tracks_entries (data_name @ '', track '' @ fmt_d n) ''Track'') 1 pre
       = Inr ()"
    by (simp only: tracksCheck_loop)
  show "tracksCheck data_name (JList (pre @ JDict kvs # post))
        = Inl (PhoenixFormatError (''Expected 3 entries in '' @ data_name @ '', track ''
            @ fmt_d (Suc (length pre)) @ '', attribute '' @ sq @ ''pos'' @ sq @ '', item ''
            @ fmt_d (length good) @ '', got '' @ fmt_d (length cs)))"
    unfolding tracksCheck_loop
    by (rule for_loop_first_failure [OF pre])
      (use a tracks_genericCheck_mismatch [of kvs good cs rest] in simp)
next
  assume a: "tracksCheck data_name (JList pre) = Inr () \<and> map_of kvs ''pos'' = None"
  then have pre: "for_loop (\<lambda>n track.
         genericCheck track tracks_entries (data_name @ '', track '' @ fmt_d n) ''Track'') 1 pre
       = Inr ()"
    by (simp only: tracksCheck_loop)
  show "tracksCheck data_name (JList (pre @ JDict kvs # post))
        = Inl (PhoenixFormatError (''Expected a '' @ sq @ ''pos'' @ sq @ '' attribute in ''
            @ data_name @ '', track '' @ fmt_d (Suc (length pre))))"
    unfolding tracksCheck_loop
    by (rule for_loop_first_failure [OF pre])
      (use a tracks_genericCheck_missing_pos [of kvs] in simp)
qed

text \<open>
  C6, as stated, fails on a Track without \<^verbatim>\<open>pos\<close>: the error names the missing
  attribute and cites no triplet length.
\<close>

theorem tracksCheck_missing_pos_counterexample:
  "\<not> track_pos_ok (JDict [(''color'', JStr ''red'')])
   \<and> tracksCheck ''t'' (JList [JDict [(''color'', JStr ''red'')]])
       = Inl (PhoenixFormatError (''Expected a '' @ sq @ ''pos'' @ sq @ '' attribute in t, track 1''))
   \<and> \<not> cites_triplet_mismatch (tracksCheck ''t'' (JList [JDict [(''color'', JStr ''red'')]]))"
  by (simp add: track_pos_ok_def cites_triplet_mismatch_def tracksCheck_loop genericCheck_def
      tracks_entries_def tuple2_def genericCheck_entry_def fmt_d.simps digit_def)

theorem tracksCheck_bad_pos_witness:
  "tracksCheck ''t'' (JList [JDict [(''pos'', JList [JList [JInt 1, JInt 2, JInt 3], JList [JInt 1, JInt 2]])]])
     = Inl (PhoenixFormatError
         (''Expected 3 entries in t, track 1, attribute '' @ sq @ ''pos'' @ sq @ '', item 1, got 2''))
   \<and> cites_triplet_mismatch
       (tracksCheck ''t'' (JList [JDict [(''pos'', JList [JList [JInt 1, JInt 2, JInt 3], JList [JInt 1, JInt 2]])]]))
   \<and> (\<exists>m. tracksCheck ''t'' (JList [JDict [(''pos'', JList [JList [JInt 1, JStr ''a'', JInt 3]])]])
         = Inl (PhoenixFormatError m))"
  using tracksCheck_bad_pos
      [of _ _ "''t''" "[]" "[(''pos'', JList [JList [JInt 1, JInt 2, JInt 3], JList [JInt 1, JInt 2]])]"
          "[JList [JInt 1, JInt 2, JInt 3]]" "[JInt 1, JInt 2]" "[]" "[]"]
    tracksCheck_bad_pos
      [of "JDict [(''pos'', JList [JList [JInt 1, JStr ''a'', JInt 3]])]"
          "[JDict [(''pos'', JList [JList [JInt 1, JStr ''a'', JInt 3]])]]" "''t''"]
  by (simp add: track_pos_ok_def raw_triplet_def numeric_def cites_triplet_mismatch_def
      tracksCheck_loop fmt_d.simps digit_def)

end
